theory Spec2Isabelle
  imports Complex_Main "HOL-Library.AList" "HOL-Library.Multiset"
begin

section \<open>Data model\<close>

text \<open>
  The analyzers of the profiler reduce webpack build statistics, render events and heap
  samples to summaries and recommendations. Byte sizes and counts are JavaScript numbers
  holding integers and are modelled as \<open>int\<close> and \<open>nat\<close>, and the mean of the
  heap deltas, a quotient of two such integers, as an exact rational. Render durations
  are fractional milliseconds held in floating-point numbers: the re-render analyzer is
  written over a type \<open>'d\<close> of numbers and takes the arithmetic it uses on them
  (\<open>number_ops\<close>) as a parameter, so that what is proved of it holds for the
  arithmetic of the program. A
  field that the code reads as \<open>x.f || d\<close> is an \<open>option\<close>, \<open>None\<close> standing
  for a missing (undefined) field. Sequences are lists, and the insertion-ordered
  \<open>Map\<close> is an association list.
\<close>

datatype severity = Critical | Warning | Info

text \<open>
  \<open>Recommendation\<close> of \<open>src/types\<close>. The prose fields \<open>description\<close>,
  \<open>fix\<close>, \<open>codeExample\<close> and \<open>estimatedImpact\<close> are fixed or formatted text that
  no count, threshold or ordering of the analyzers reads; they are not carried.
\<close>

record Recommendation =
  severity :: severity
  category :: string
  title :: string

subsection \<open>Build statistics (input) and bundle analysis (output)\<close>

datatype js_id = IdNum int | IdStr string

record stats_module =
  mod_name :: "string option"
  mod_size :: "int option"
  mod_identifier :: "string option"
  mod_reasons :: "string option list option"
  mod_depth :: "int option"

record stats_asset =
  asset_name :: "string option"
  asset_size :: "int option"

record stats_chunk =
  chunk_id :: "js_id option"
  chunk_names :: "string list option"
  chunk_size :: "int option"
  chunk_files :: "string list option"
  chunk_initial :: "bool option"
  chunk_modules :: "stats_module list option"
  chunk_parents :: "js_id list option"

record WebpackStats =
  assets :: "stats_asset list"
  chunks :: "stats_chunk list"
  modules :: "stats_module list option"

record ChunkInfo =
  ci_name :: string
  ci_size :: int
  ci_files :: "string list"
  ci_modules :: nat
  ci_isInitial :: bool
  ci_parentChunks :: "string list"

record ModuleInfo =
  mi_name :: string
  mi_size :: int
  mi_path :: string
  mi_reasons :: "string list"
  mi_depth :: int

record DuplicateModule =
  dup_name :: string
  dup_instances :: nat
  dup_totalSize :: int
  dup_locations :: "string list"

record Metrics =
  jsSize :: int
  cssSize :: int
  imageSize :: int
  otherSize :: int

record BundleAnalysis =
  totalSize :: int
  ba_chunks :: "ChunkInfo list"
  largeModules :: "ModuleInfo list"
  duplicates :: "DuplicateModule list"
  ba_recommendations :: "Recommendation list"
  metrics :: Metrics

subsection \<open>Render events (input) and re-render analysis (output)\<close>

datatype causeType = Props | State | Context | Parent

text \<open>
  The operations on JavaScript numbers that the re-render analyzer applies to durations:
  \<open>a + b\<close>, \<open>a / b\<close>, \<open>a < b\<close> (\<open>a > b\<close> is \<open>b < a\<close>), and the number
  that a count or an integer literal denotes.
\<close>

record 'd number_ops =
  num_add :: "'d \<Rightarrow> 'd \<Rightarrow> 'd"
  num_div :: "'d \<Rightarrow> 'd \<Rightarrow> 'd"
  num_less :: "'d \<Rightarrow> 'd \<Rightarrow> bool"
  num_of_nat :: "nat \<Rightarrow> 'd"

record 'd RenderEvent =
  componentName :: string
  ev_timestamp :: int
  duration :: 'd
  ev_causeType :: causeType
  ev_details :: string

record RerenderCause =
  rc_type :: causeType
  rc_count :: nat
  rc_details :: string

record 'd ComponentRerenderInfo =
  cri_name :: string
  renderCount :: nat
  avgRenderTime :: 'd
  causes :: "RerenderCause list"
  isUnnecessary :: bool

record 'd RerenderAnalysis =
  components :: "'d ComponentRerenderInfo list"
  totalRerenders :: nat
  unnecessaryRerenders :: nat
  ra_recommendations :: "Recommendation list"

subsection \<open>Heap samples (input) and memory analysis (output)\<close>

record MemorySnapshot =
  ms_timestamp :: int
  heapUsed :: int
  heapTotal :: int
  ms_external :: int
  arrayBuffers :: int

record LeakedObject =
  lo_constructor :: string
  lo_count :: nat
  lo_retainedSize :: int
  lo_location :: "string option"

text \<open>
  \<open>MemoryLeak\<close> of \<open>src/types\<close>, without its \<open>description\<close> text.
\<close>

record MemoryLeak =
  leak_type :: string
  leak_severity :: severity
  leak_retainedSize :: int
  leak_objects :: "LeakedObject list"

record MemoryAnalysis =
  snapshots :: "MemorySnapshot list"
  leaks :: "MemoryLeak list"
  heapSize :: int
  ma_retainedSize :: int
  ma_recommendations :: "Recommendation list"

subsection \<open>The merged result\<close>

record 'd Analyses =
  an_bundle :: "BundleAnalysis option"
  an_rerenders :: "'d RerenderAnalysis option"
  an_memory :: "MemoryAnalysis option"

record Summary =
  totalIssues :: nat
  criticalIssues :: nat
  warnings :: nat
  suggestions :: "string list"

record 'd AnalysisResult =
  ar_timestamp :: int
  projectPath :: string
  analyses :: "'d Analyses"
  summary :: Summary

section \<open>JavaScript library operations used by the analyzers\<close>

text \<open>
  \<open>x || d\<close> on a possibly missing number or string: \<open>undefined\<close>, \<open>0\<close> and the
  empty string are falsy and give the default.
\<close>

definition num_or :: "int option \<Rightarrow> int \<Rightarrow> int" where
  "num_or x d = (case x of None \<Rightarrow> d | Some n \<Rightarrow> if n = 0 then d else n)"

definition str_or :: "string option \<Rightarrow> string \<Rightarrow> string" where
  "str_or x d = (case x of None \<Rightarrow> d | Some s \<Rightarrow> if s = [] then d else s)"

text \<open>\<open>String.prototype.endsWith\<close>, \<open>startsWith\<close> and \<open>includes\<close>.\<close>

definition endsWith :: "string \<Rightarrow> string \<Rightarrow> bool" where
  "endsWith s suf = (length suf \<le> length s \<and> drop (length s - length suf) s = suf)"

definition startsWith :: "string \<Rightarrow> string \<Rightarrow> bool" where
  "startsWith s pre = (take (length pre) s = pre)"

fun js_includes :: "string \<Rightarrow> string \<Rightarrow> bool" where
  "js_includes [] sub = (sub = [])"
| "js_includes (c # cs) sub = (startsWith (c # cs) sub \<or> js_includes cs sub)"

text \<open>
  \<open>Number.prototype.toString\<close> on an integer (decimal digits, a leading minus sign),
  and \<open>toString\<close> on a chunk id, which is a number or a string.
\<close>

fun show_nat :: "nat \<Rightarrow> string" where
  "show_nat n =
     (if n < 10 then [char_of (48 + n)]
      else show_nat (n div 10) @ [char_of (48 + n mod 10)])"

declare show_nat.simps [simp del]

definition show_int :: "int \<Rightarrow> string" where
  "show_int i = (if i < 0 then CHR ''-'' # show_nat (nat (- i)) else show_nat (nat i))"

fun toString :: "js_id \<Rightarrow> string" where
  "toString (IdNum n) = show_int n"
| "toString (IdStr s) = s"

text \<open>
  \<open>Array.prototype.sort\<close> with a comparator. The language requires the sort to be
  stable, and all comparators of the analyzers are differences of two integer keys, so
  the result is the stable arrangement by that key; it is computed here by insertion,
  an element going in front of the first one it does not compare greater than.
\<close>

fun insert_cmp :: "('a \<Rightarrow> 'a \<Rightarrow> int) \<Rightarrow> 'a \<Rightarrow> 'a list \<Rightarrow> 'a list" where
  "insert_cmp cmp x [] = [x]"
| "insert_cmp cmp x (y # ys) =
     (if cmp x y \<le> 0 then x # y # ys else y # insert_cmp cmp x ys)"

definition sort_cmp :: "('a \<Rightarrow> 'a \<Rightarrow> int) \<Rightarrow> 'a list \<Rightarrow> 'a list" where
  "sort_cmp cmp xs = foldr (insert_cmp cmp) xs []"

text \<open>\<open>Array.prototype.slice(0, n)\<close>.\<close>

definition slice0 :: "nat \<Rightarrow> 'a list \<Rightarrow> 'a list" where
  "slice0 n xs = take n xs"

section \<open>The bundle analyzer\<close>

subsection \<open>analyzeChunks\<close>

definition chunkInfo :: "stats_chunk \<Rightarrow> ChunkInfo" where
  "chunkInfo chunk =
     \<lparr> ci_name =
         str_or (case chunk_names chunk of None \<Rightarrow> None
                 | Some ns \<Rightarrow> (case ns of [] \<Rightarrow> None | n # _ \<Rightarrow> Some n))
           (str_or (map_option toString (chunk_id chunk)) ''unknown''),
       ci_size = num_or (chunk_size chunk) 0,
       ci_files = (case chunk_files chunk of None \<Rightarrow> [] | Some fs \<Rightarrow> fs),
       ci_modules = (case chunk_modules chunk of None \<Rightarrow> 0 | Some ms \<Rightarrow> length ms),
       ci_isInitial = (case chunk_initial chunk of None \<Rightarrow> False | Some b \<Rightarrow> b),
       ci_parentChunks =
         (case chunk_parents chunk of None \<Rightarrow> [] | Some ps \<Rightarrow> map toString ps) \<rparr>"

definition analyzeChunks :: "WebpackStats \<Rightarrow> ChunkInfo list" where
  "analyzeChunks stats =
     sort_cmp (\<lambda>a b. ci_size b - ci_size a) (map chunkInfo (chunks stats))"

subsection \<open>findLargeModules\<close>

definition LARGE_MODULE_THRESHOLD :: int where
  "LARGE_MODULE_THRESHOLD = 50000"

definition stats_modules :: "WebpackStats \<Rightarrow> stats_module list" where
  "stats_modules stats = (case modules stats of None \<Rightarrow> [] | Some ms \<Rightarrow> ms)"

definition moduleInfo :: "stats_module \<Rightarrow> ModuleInfo" where
  "moduleInfo m =
     \<lparr> mi_name = str_or (mod_name m) ''unknown'',
       mi_size = num_or (mod_size m) 0,
       mi_path = str_or (mod_identifier m) [],
       mi_reasons =
         (case mod_reasons m of None \<Rightarrow> []
          | Some rs \<Rightarrow> map (\<lambda>r. str_or r ''unknown'') rs),
       mi_depth = num_or (mod_depth m) 0 \<rparr>"

definition findLargeModules :: "WebpackStats \<Rightarrow> ModuleInfo list" where
  "findLargeModules stats =
     slice0 20
       (sort_cmp (\<lambda>a b. mi_size b - mi_size a)
          (map moduleInfo
             (filter (\<lambda>m. num_or (mod_size m) 0 > LARGE_MODULE_THRESHOLD)
                (stats_modules stats))))"

subsection \<open>findDuplicateModules\<close>

text \<open>
  \<open>extractModuleName\<close> matches \<open>/([^/\\]+)\.[jt]sx?$/\<close> and returns group 1, or
  the whole name when there is no match. The match must end at the end of the name
  with \<open>.js\<close>, \<open>.ts\<close>, \<open>.jsx\<close> or \<open>.tsx\<close>, which fixes where the extension
  starts; group 1 is then the longest run of characters other than slash and backslash
  that ends there (the match is the leftmost one), and there is no match when that run
  is empty.
\<close>

definition extension_length :: "string \<Rightarrow> nat option" where
  "extension_length s =
     (if endsWith s ''.js'' \<or> endsWith s ''.ts'' then Some 3
      else if endsWith s ''.jsx'' \<or> endsWith s ''.tsx'' then Some 4
      else None)"

definition is_separator :: "char \<Rightarrow> bool" where
  "is_separator c = (c = CHR ''/'' \<or> c = CHR 0x5C)"

definition last_segment :: "string \<Rightarrow> string" where
  "last_segment s = rev (takeWhile (\<lambda>c. \<not> is_separator c) (rev s))"

definition extractModuleName :: "string \<Rightarrow> string" where
  "extractModuleName fullName =
     (case extension_length fullName of
        None \<Rightarrow> fullName
      | Some k \<Rightarrow>
          (let stem = last_segment (take (length fullName - k) fullName)
           in if stem = [] then fullName else stem))"

record ModuleGroup =
  mg_instances :: nat
  mg_totalSize :: int
  mg_locations :: "string list"

text \<open>
  The key under which the \<open>forEach\<close> body files a module:
  \<open>extractModuleName(module.name || '')\<close>.
\<close>

definition base_name :: "stats_module \<Rightarrow> string" where
  "base_name m = extractModuleName (str_or (mod_name m) [])"

text \<open>
  The early return of the \<open>forEach\<close> body. Its tests are made on the extracted
  name, not on \<open>module.name\<close>.
\<close>

definition skipped :: "stats_module \<Rightarrow> bool" where
  "skipped m =
     (base_name m = [] \<or> js_includes (base_name m) ''webpack''
      \<or> js_includes (base_name m) ''node_modules'')"

text \<open>
  The exclusion as the specification words it, on the raw name of the module; it is
  stated here only to be compared with \<open>skipped\<close>.
\<close>

definition spec_excluded_by_raw_name :: "stats_module \<Rightarrow> bool" where
  "spec_excluded_by_raw_name m =
     (js_includes (str_or (mod_name m) []) ''webpack''
      \<or> js_includes (str_or (mod_name m) []) ''node_modules'')"

text \<open>
  The \<open>Map\<close> keeps its keys in insertion order: an association list, where
  \<open>AList.update\<close> replaces the value of a present key in place and appends a new key.
\<close>

definition duplicate_step ::
  "stats_module \<Rightarrow> (string \<times> ModuleGroup) list \<Rightarrow> (string \<times> ModuleGroup) list" where
  "duplicate_step m moduleMap =
     (if skipped m then moduleMap
      else (case map_of moduleMap (base_name m) of
              Some existing \<Rightarrow>
                AList.update (base_name m)
                  \<lparr> mg_instances = mg_instances existing + 1,
                    mg_totalSize = mg_totalSize existing + num_or (mod_size m) 0,
                    mg_locations = mg_locations existing @ [str_or (mod_identifier m) []] \<rparr>
                  moduleMap
            | None \<Rightarrow>
                AList.update (base_name m)
                  \<lparr> mg_instances = 1,
                    mg_totalSize = num_or (mod_size m) 0,
                    mg_locations = [str_or (mod_identifier m) []] \<rparr>
                  moduleMap))"

definition moduleMap_of :: "stats_module list \<Rightarrow> (string \<times> ModuleGroup) list" where
  "moduleMap_of ms = fold duplicate_step ms []"

definition duplicate_entry :: "string \<times> ModuleGroup \<Rightarrow> DuplicateModule" where
  "duplicate_entry e =
     \<lparr> dup_name = fst e,
       dup_instances = mg_instances (snd e),
       dup_totalSize = mg_totalSize (snd e),
       dup_locations = mg_locations (snd e) \<rparr>"

definition findDuplicateModules :: "WebpackStats \<Rightarrow> DuplicateModule list" where
  "findDuplicateModules stats =
     sort_cmp (\<lambda>a b. dup_totalSize b - dup_totalSize a)
       (map duplicate_entry
          (filter (\<lambda>e. mg_instances (snd e) > 1) (moduleMap_of (stats_modules stats))))"

subsection \<open>calculateMetrics\<close>

definition is_image :: "string \<Rightarrow> bool" where
  "is_image name =
     list_ex (\<lambda>ext. endsWith name (CHR ''.'' # ext))
       [''png'', ''jpg'', ''jpeg'', ''gif'', ''svg'', ''webp'']"

definition metrics_step :: "stats_asset \<Rightarrow> Metrics \<Rightarrow> Metrics" where
  "metrics_step asset m =
     (let sz = num_or (asset_size asset) 0; name = str_or (asset_name asset) []
      in if endsWith name ''.js'' then m \<lparr> jsSize := jsSize m + sz \<rparr>
         else if endsWith name ''.css'' then m \<lparr> cssSize := cssSize m + sz \<rparr>
         else if is_image name then m \<lparr> imageSize := imageSize m + sz \<rparr>
         else m \<lparr> otherSize := otherSize m + sz \<rparr>)"

definition calculateMetrics :: "WebpackStats \<Rightarrow> Metrics" where
  "calculateMetrics stats =
     fold metrics_step (assets stats)
       \<lparr> jsSize = 0, cssSize = 0, imageSize = 0, otherSize = 0 \<rparr>"

subsection \<open>generateBundleRecommendations and analyzeWebpackStats\<close>

text \<open>
  The function computes its own \<open>totalSize\<close>, from the chunk summaries it is given;
  the \<open>metrics\<close> argument is not read.
\<close>

definition generateBundleRecommendations ::
  "ChunkInfo list \<Rightarrow> ModuleInfo list \<Rightarrow> DuplicateModule list \<Rightarrow> Metrics \<Rightarrow> Recommendation list" where
  "generateBundleRecommendations cs lms dups ms =
     (if sum_list (map ci_size cs) > 500000
      then [\<lparr> severity = Critical, category = ''bundle-size'',
               title = ''Bundle size exceeds recommended limit'' \<rparr>]
      else []) @
     map (\<lambda>chunk. \<lparr> severity = Warning, category = ''chunk-size'',
                     title = ''Large chunk detected: '' @ ci_name chunk \<rparr>)
       (filter (\<lambda>chunk. ci_size chunk > 250000) cs) @
     map (\<lambda>m. \<lparr> severity = Warning, category = ''large-module'',
                 title = ''Large module: '' @ mi_name m \<rparr>)
       (slice0 3 lms) @
     map (\<lambda>dup. \<lparr> severity = Warning, category = ''duplicate-modules'',
                   title = ''Duplicate module: '' @ dup_name dup \<rparr>)
       (slice0 3 dups)"

definition analyzeWebpackStats :: "WebpackStats \<Rightarrow> BundleAnalysis" where
  "analyzeWebpackStats stats =
     (let cs = analyzeChunks stats;
          lms = findLargeModules stats;
          dups = findDuplicateModules stats;
          ms = calculateMetrics stats;
          recs = generateBundleRecommendations cs lms dups ms
      in \<lparr> totalSize = fold (\<lambda>asset sum. sum + num_or (asset_size asset) 0) (assets stats) 0,
           ba_chunks = cs,
           largeModules = lms,
           duplicates = dups,
           ba_recommendations = recs,
           metrics = ms \<rparr>)"

text \<open>Whether a list of recommendations holds one of a given severity and category.\<close>

definition has_recommendation :: "severity \<Rightarrow> string \<Rightarrow> Recommendation list \<Rightarrow> bool" where
  "has_recommendation sev cat recs =
     list_ex (\<lambda>r. severity r = sev \<and> category r = cat) recs"

subsection \<open>The fixture of the test suite\<close>

text \<open>\<open>createMockWebpackStats\<close> of \<open>tests/setup.ts\<close>.\<close>

definition mock_module :: "string \<Rightarrow> int \<Rightarrow> string \<Rightarrow> int \<Rightarrow> string list \<Rightarrow> stats_module" where
  "mock_module n s i d rs =
     \<lparr> mod_name = Some n, mod_size = Some s, mod_identifier = Some i,
       mod_reasons = Some (map Some rs), mod_depth = Some d \<rparr>"

definition chunk_module :: "string \<Rightarrow> int \<Rightarrow> string \<Rightarrow> stats_module" where
  "chunk_module n s i =
     \<lparr> mod_name = Some n, mod_size = Some s, mod_identifier = Some i,
       mod_reasons = None, mod_depth = None \<rparr>"

definition createMockWebpackStats :: WebpackStats where
  "createMockWebpackStats =
     \<lparr> assets =
         [\<lparr> asset_name = Some ''main.js'', asset_size = Some 250000 \<rparr>,
          \<lparr> asset_name = Some ''vendor.js'', asset_size = Some 500000 \<rparr>,
          \<lparr> asset_name = Some ''styles.css'', asset_size = Some 50000 \<rparr>,
          \<lparr> asset_name = Some ''logo.png'', asset_size = Some 10000 \<rparr>],
       chunks =
         [\<lparr> chunk_id = Some (IdNum 0), chunk_names = Some [''main''],
             chunk_size = Some 250000, chunk_files = Some [''main.js''],
             chunk_initial = Some True,
             chunk_modules = Some
               [chunk_module ''App.tsx'' 15000 ''src/App.tsx'',
                chunk_module ''Header.tsx'' 8000 ''src/components/Header.tsx''],
             chunk_parents = None \<rparr>,
          \<lparr> chunk_id = Some (IdNum 1), chunk_names = Some [''vendor''],
             chunk_size = Some 500000, chunk_files = Some [''vendor.js''],
             chunk_initial = Some True,
             chunk_modules = Some
               [chunk_module ''react'' 120000 ''node_modules/react/index.js'',
                chunk_module ''react-dom'' 150000 ''node_modules/react-dom/index.js'',
                chunk_module ''lodash'' 230000 ''node_modules/lodash/lodash.js''],
             chunk_parents = None \<rparr>],
       modules = Some
         [mock_module ''App.tsx'' 15000 ''src/App.tsx'' 0 [],
          mock_module ''Header.tsx'' 8000 ''src/components/Header.tsx'' 1 [''App.tsx''],
          mock_module ''react'' 120000 ''node_modules/react/index.js'' 0 [],
          mock_module ''lodash'' 230000 ''node_modules/lodash/lodash.js'' 0 [],
          mock_module ''lodash'' 230000
            ''node_modules/other-package/node_modules/lodash/lodash.js'' 2 [''other-package'']] \<rparr>"

section \<open>The re-render analyzer\<close>

subsection \<open>analyzeRenderEvents\<close>

text \<open>
  Grouping by component: the first \<open>forEach\<close>. The map keeps the components in the
  order of their first event, and each group keeps its events in input order.
\<close>

definition group_step ::
  "'d RenderEvent \<Rightarrow> (string \<times> 'd RenderEvent list) list
     \<Rightarrow> (string \<times> 'd RenderEvent list) list" where
  "group_step event componentMap =
     (case map_of componentMap (componentName event) of
        Some existing \<Rightarrow> AList.update (componentName event) (existing @ [event]) componentMap
      | None \<Rightarrow> AList.update (componentName event) [event] componentMap)"

definition componentMap_of :: "'d RenderEvent list \<Rightarrow> (string \<times> 'd RenderEvent list) list" where
  "componentMap_of events = fold group_step events []"

text \<open>The cause counts of one group, a map in order of first occurrence.\<close>

definition count_step :: "'d RenderEvent \<Rightarrow> (causeType \<times> nat) list \<Rightarrow> (causeType \<times> nat) list" where
  "count_step event causeCounts =
     AList.update (ev_causeType event)
       ((case map_of causeCounts (ev_causeType event) of None \<Rightarrow> 0 | Some c \<Rightarrow> c) + 1)
       causeCounts"

definition causes_of :: "'d RenderEvent list \<Rightarrow> RerenderCause list" where
  "causes_of renderEvents =
     map (\<lambda>(ty, count).
            \<lparr> rc_type = ty, rc_count = count,
              rc_details =
                str_or (map_option ev_details (find (\<lambda>e. ev_causeType e = ty) renderEvents)) [] \<rparr>)
       (fold count_step renderEvents [])"

text \<open>
  The record pushed for one group. \<open>avgRenderTime\<close> is what the program computes:
  the durations added from the left to the literal 0 by \<open>reduce\<close>, and the sum
  divided by the number of events, all in the arithmetic \<open>ops\<close> of the program's
  numbers. The divisor is never 0 for a group of the map (lemma
  \<open>componentMap_of_groups\<close> below).
\<close>

definition component_info ::
  "'d number_ops \<Rightarrow> string \<Rightarrow> 'd RenderEvent list \<Rightarrow> 'd ComponentRerenderInfo" where
  "component_info ops name renderEvents =
     (let count = length renderEvents;
          avg = num_div ops
                  (fold (\<lambda>e sum. num_add ops sum (duration e)) renderEvents (num_of_nat ops 0))
                  (num_of_nat ops count)
      in \<lparr> cri_name = name,
           renderCount = count,
           avgRenderTime = avg,
           causes = causes_of renderEvents,
           isUnnecessary = (count > 5 \<and> num_less ops avg (num_of_nat ops 5)) \<rparr>)"

text \<open>
  The second \<open>forEach\<close>, over the entries of the map, with the three values it
  updates: the components pushed so far and the two running totals.
\<close>

record 'd loop_state =
  ls_components :: "'d ComponentRerenderInfo list"
  ls_totalRerenders :: nat
  ls_unnecessaryRerenders :: nat

definition component_step ::
  "'d number_ops \<Rightarrow> string \<times> 'd RenderEvent list \<Rightarrow> 'd loop_state \<Rightarrow> 'd loop_state" where
  "component_step ops entry st =
     (let info = component_info ops (fst entry) (snd entry)
      in \<lparr> ls_components = ls_components st @ [info],
           ls_totalRerenders = ls_totalRerenders st + renderCount info,
           ls_unnecessaryRerenders =
             (if isUnnecessary info then ls_unnecessaryRerenders st + renderCount info
              else ls_unnecessaryRerenders st) \<rparr>)"

subsection \<open>generateRerenderRecommendations\<close>

definition cause_count_above :: "causeType \<Rightarrow> 'd ComponentRerenderInfo \<Rightarrow> bool" where
  "cause_count_above ty component =
     (case find (\<lambda>c. rc_type c = ty) (causes component) of
        None \<Rightarrow> False
      | Some c \<Rightarrow> rc_count c > 5)"

definition excessive_recommendations :: "'d ComponentRerenderInfo \<Rightarrow> Recommendation list" where
  "excessive_recommendations component =
     (if cause_count_above Props component
      then [\<lparr> severity = Warning, category = ''excessive-renders'',
               title = ''Component '' @ [CHR 0x22] @ cri_name component @ [CHR 0x22]
                       @ '' re-renders frequently'' \<rparr>]
      else []) @
     (if cause_count_above State component
      then [\<lparr> severity = Warning, category = ''state-updates'',
               title = ''Component '' @ [CHR 0x22] @ cri_name component @ [CHR 0x22]
                       @ '' has frequent state updates'' \<rparr>]
      else [])"

definition generateRerenderRecommendations ::
  "'d number_ops \<Rightarrow> 'd ComponentRerenderInfo list \<Rightarrow> Recommendation list" where
  "generateRerenderRecommendations ops cs =
     concat (map excessive_recommendations (slice0 5 (filter (\<lambda>c. renderCount c > 10) cs))) @
     map (\<lambda>component.
            \<lparr> severity = Critical, category = ''slow-renders'',
              title = ''Component '' @ [CHR 0x22] @ cri_name component @ [CHR 0x22]
                      @ '' renders slowly'' \<rparr>)
       (slice0 3 (filter (\<lambda>c. num_less ops (num_of_nat ops 16) (avgRenderTime c)) cs))"

definition analyzeRenderEvents ::
  "'d number_ops \<Rightarrow> 'd RenderEvent list \<Rightarrow> 'd RerenderAnalysis" where
  "analyzeRenderEvents ops events =
     (let st = fold (component_step ops) (componentMap_of events)
                 \<lparr> ls_components = [], ls_totalRerenders = 0, ls_unnecessaryRerenders = 0 \<rparr>;
          sorted = sort_cmp (\<lambda>a b. int (renderCount b) - int (renderCount a)) (ls_components st)
      in \<lparr> components = sorted,
           totalRerenders = ls_totalRerenders st,
           unnecessaryRerenders = ls_unnecessaryRerenders st,
           ra_recommendations = generateRerenderRecommendations ops sorted \<rparr>)"

subsection \<open>Exact arithmetic and a sample stream\<close>

text \<open>
  Exact rational arithmetic. It is the arithmetic of the program's floating-point
  numbers wherever the operands and every result are binary fractions that such a
  number holds exactly, as on the sample stream below: eight renders of 3.25 ms, one of
  18.5 ms and eight of 6.5 ms, whose partial sums and means (3.25, 18.5, 6.5) are all
  multiples of 1/4 below 64.
\<close>

definition exact_ops :: "rat number_ops" where
  "exact_ops =
     \<lparr> num_add = (\<lambda>a b. a + b), num_div = (\<lambda>a b. a / b), num_less = (\<lambda>a b. a < b),
       num_of_nat = of_nat \<rparr>"

definition sample_event :: "string \<Rightarrow> rat \<Rightarrow> causeType \<Rightarrow> rat RenderEvent" where
  "sample_event name d cause =
     \<lparr> componentName = name, ev_timestamp = 0, duration = d, ev_causeType = cause,
       ev_details = ''sample'' \<rparr>"

definition sample_events :: "rat RenderEvent list" where
  "sample_events =
     replicate 8 (sample_event ''ProductList'' (13 / 4) Props) @
     [sample_event ''UserProfile'' (37 / 2) State] @
     replicate 8 (sample_event ''Table'' (13 / 2) Props)"

section \<open>The memory analyzer\<close>

text \<open>
  Reading a property of \<open>undefined\<close>, as \<open>snapshots[0].heapUsed\<close> does on an empty
  array, throws a \<open>TypeError\<close>.
\<close>

datatype error = TypeError

subsection \<open>detectMemoryLeaks\<close>

text \<open>The deltas of the \<open>for\<close> loop, \<open>i\<close> from 1 to the last index, and their mean.\<close>

definition growthRates :: "MemorySnapshot list \<Rightarrow> int list" where
  "growthRates snaps =
     map (\<lambda>i. heapUsed (snaps ! i) - heapUsed (snaps ! (i - 1))) [1..<length snaps]"

definition avgGrowth :: "MemorySnapshot list \<Rightarrow> rat" where
  "avgGrowth snaps =
     of_int (fold (\<lambda>b a. a + b) (growthRates snaps) 0) / of_nat (length (growthRates snaps))"

definition consistent_growth_leaks :: "MemorySnapshot list \<Rightarrow> MemoryLeak list" where
  "consistent_growth_leaks snaps =
     (if length snaps \<ge> 3 \<and> avgGrowth snaps > 1048576
      then [\<lparr> leak_type = ''consistent-growth'', leak_severity = Critical,
               leak_retainedSize = \<lfloor>avgGrowth snaps * of_nat (length snaps)\<rfloor>,
               leak_objects = [] \<rparr>]
      else [])"

text \<open>
  \<open>(memoryIncrease / initialMemory) * 100 > 50\<close>. A division by 0 does not throw: it
  gives \<open>Infinity\<close> for a positive increase, which exceeds 50, and \<open>NaN\<close> or
  \<open>-Infinity\<close> otherwise, which do not.
\<close>

definition increase_above_half :: "int \<Rightarrow> int \<Rightarrow> bool" where
  "increase_above_half memoryIncrease initialMemory =
     (if initialMemory = 0 then memoryIncrease > 0
      else (of_int memoryIncrease / of_int initialMemory) * 100 > (50 :: rat))"

definition detectDetachedDOMNodes :: "MemoryLeak option" where
  "detectDetachedDOMNodes =
     Some \<lparr> leak_type = ''detached-dom'', leak_severity = Warning,
            leak_retainedSize = 524288,
            leak_objects =
              [\<lparr> lo_constructor = ''HTMLDivElement'', lo_count = 15,
                  lo_retainedSize = 348160, lo_location = Some ''Component cleanup issue'' \<rparr>,
               \<lparr> lo_constructor = ''HTMLButtonElement'', lo_count = 8,
                  lo_retainedSize = 176128, lo_location = None \<rparr>] \<rparr>"

definition detectEventListenerLeaks :: "MemoryLeak option" where
  "detectEventListenerLeaks =
     Some \<lparr> leak_type = ''event-listeners'', leak_severity = Warning,
            leak_retainedSize = 262144,
            leak_objects =
              [\<lparr> lo_constructor = ''EventListener'', lo_count = 42,
                  lo_retainedSize = 262144, lo_location = Some ''useEffect cleanup missing'' \<rparr>] \<rparr>"

definition detectMemoryLeaks :: "MemorySnapshot list \<Rightarrow> error + MemoryLeak list" where
  "detectMemoryLeaks snaps =
     (case snaps of
        [] \<Rightarrow> Inl TypeError
      | first # _ \<Rightarrow>
          (let initialMemory = heapUsed first;
               finalMemory = heapUsed (last snaps);
               memoryIncrease = finalMemory - initialMemory
           in Inr (consistent_growth_leaks snaps @
                   (if increase_above_half memoryIncrease initialMemory
                    then [\<lparr> leak_type = ''large-increase'', leak_severity = Warning,
                             leak_retainedSize = memoryIncrease, leak_objects = [] \<rparr>]
                    else []) @
                   (case detectDetachedDOMNodes of None \<Rightarrow> [] | Some l \<Rightarrow> [l]) @
                   (case detectEventListenerLeaks of None \<Rightarrow> [] | Some l \<Rightarrow> [l]))))"

subsection \<open>calculateRetainedSize and generateMemoryRecommendations\<close>

definition calculateRetainedSize :: "MemorySnapshot list \<Rightarrow> int" where
  "calculateRetainedSize snaps =
     (if length snaps < 2 then 0
      else max 0 (heapUsed (last snaps) - heapUsed (hd snaps)))"

definition generateMemoryRecommendations ::
  "MemorySnapshot list \<Rightarrow> MemoryLeak list \<Rightarrow> error + Recommendation list" where
  "generateMemoryRecommendations snaps ls =
     (let recs =
            map (\<lambda>leak. \<lparr> severity = Critical, category = ''memory-leak'',
                           title = ''Memory leak detected: '' @ leak_type leak \<rparr>)
              (filter (\<lambda>l. leak_severity l = Critical) ls) @
            (case find (\<lambda>l. leak_type l = ''detached-dom'') ls of
               None \<Rightarrow> []
             | Some _ \<Rightarrow> [\<lparr> severity = Warning, category = ''detached-dom'',
                             title = ''Detached DOM nodes detected'' \<rparr>]) @
            (case find (\<lambda>l. leak_type l = ''event-listeners'') ls of
               None \<Rightarrow> []
             | Some _ \<Rightarrow> [\<lparr> severity = Warning, category = ''event-listeners'',
                             title = ''Event listeners not properly cleaned up'' \<rparr>])
      in if snaps = [] then Inl TypeError
         else Inr (recs @
                   (if heapUsed (last snaps) > 52428800
                    then [\<lparr> severity = Warning, category = ''high-memory'',
                             title = ''High memory usage detected'' \<rparr>]
                    else [])))"

text \<open>
  The part of \<open>analyzeMemory\<close> that follows the collection of the snapshots: the
  leaks, the recommendations, the heap size read from the last snapshot, the retained
  size, and the record built from them. The first failing step decides the result.
\<close>

definition analyzeSnapshots :: "MemorySnapshot list \<Rightarrow> error + MemoryAnalysis" where
  "analyzeSnapshots snaps =
     (case detectMemoryLeaks snaps of
        Inl e \<Rightarrow> Inl e
      | Inr ls \<Rightarrow>
          (case generateMemoryRecommendations snaps ls of
             Inl e \<Rightarrow> Inl e
           | Inr recs \<Rightarrow>
               (if snaps = [] then Inl TypeError
                else Inr \<lparr> snapshots = snaps,
                           leaks = ls,
                           heapSize = heapUsed (last snaps),
                           ma_retainedSize = calculateRetainedSize snaps,
                           ma_recommendations = recs \<rparr>)))"

text \<open>Whether a list of leaks holds one of a given type.\<close>

definition has_leak :: "string \<Rightarrow> MemoryLeak list \<Rightarrow> bool" where
  "has_leak ty ls = list_ex (\<lambda>l. leak_type l = ty) ls"

subsection \<open>The fixture of the test suite\<close>

text \<open>\<open>createMockMemorySnapshots\<close> of \<open>tests/setup.ts\<close>, and a sample by heap use.\<close>

definition snapshot_at :: "int \<Rightarrow> int \<Rightarrow> int \<Rightarrow> MemorySnapshot" where
  "snapshot_at t used tot =
     \<lparr> ms_timestamp = t, heapUsed = used, heapTotal = tot, ms_external = 0, arrayBuffers = 0 \<rparr>"

definition createMockMemorySnapshots :: "int \<Rightarrow> MemorySnapshot list" where
  "createMockMemorySnapshots now =
     (let baseHeap = 20 * 1024 * 1024
      in [snapshot_at now baseHeap 31457280,
          snapshot_at (now + 3000) (baseHeap + 2 * 1024 * 1024) 31457280,
          snapshot_at (now + 6000) (baseHeap + 4 * 1024 * 1024) 31457280,
          snapshot_at (now + 9000) (baseHeap + 6 * 1024 * 1024) 31457280])"

section \<open>The summary calculator (report-generator.ts)\<close>

text \<open>
  \<open>allRecommendations\<close> of \<open>calculateSummary\<close>: the three optional lists spread
  in the order bundle, rerenders, memory, an absent analysis contributing \<open>[]\<close>.
\<close>

definition allRecommendations :: "'d AnalysisResult \<Rightarrow> Recommendation list" where
  "allRecommendations results =
     (case an_bundle (analyses results) of None \<Rightarrow> [] | Some b \<Rightarrow> ba_recommendations b) @
     (case an_rerenders (analyses results) of None \<Rightarrow> [] | Some r \<Rightarrow> ra_recommendations r) @
     (case an_memory (analyses results) of None \<Rightarrow> [] | Some m \<Rightarrow> ma_recommendations m)"

text \<open>The body of the \<open>forEach\<close> of \<open>calculateSummary\<close>, on the four running values.\<close>

definition summary_step :: "Recommendation \<Rightarrow> Summary \<Rightarrow> Summary" where
  "summary_step rec s =
     \<lparr> totalIssues = totalIssues s + 1,
       criticalIssues = (if severity rec = Critical then criticalIssues s + 1 else criticalIssues s),
       warnings = (if severity rec = Critical then warnings s
                   else if severity rec = Warning then warnings s + 1 else warnings s),
       suggestions = suggestions s @ [category rec @ '': '' @ title rec] \<rparr>"

definition calculateSummary :: "'d AnalysisResult \<Rightarrow> 'd AnalysisResult" where
  "calculateSummary results =
     results \<lparr> summary :=
       fold summary_step (allRecommendations results)
         \<lparr> totalIssues = 0, criticalIssues = 0, warnings = 0, suggestions = [] \<rparr> \<rparr>"

section \<open>Properties of the library operations\<close>

lemma num_or_zero: "num_or x 0 = (case x of None \<Rightarrow> 0 | Some n \<Rightarrow> n)"
  by (simp add: num_or_def split: option.splits)

text \<open>
  The string tests, as the language defines them: a suffix, a prefix, a contiguous
  substring.
\<close>

lemma endsWith_append: "endsWith (xs @ suf) suf"
  by (simp add: endsWith_def)

lemma endsWith_decompose:
  "endsWith s suf \<Longrightarrow> length suf = k \<Longrightarrow> s = take (length s - k) s @ suf"
  by (metis append_take_drop_id endsWith_def)

lemma endsWith_iff: "endsWith s suf \<longleftrightarrow> (\<exists>pre. s = pre @ suf)"
proof
  assume "endsWith s suf"
  then have "s = take (length s - length suf) s @ suf" by (rule endsWith_decompose) simp
  then show "\<exists>pre. s = pre @ suf" ..
next
  assume "\<exists>pre. s = pre @ suf"
  then show "endsWith s suf" by (auto simp: endsWith_def)
qed

lemma startsWith_iff: "startsWith s pre \<longleftrightarrow> (\<exists>suf. s = pre @ suf)"
proof
  assume "startsWith s pre"
  then have "s = pre @ drop (length pre) s"
    by (metis append_take_drop_id startsWith_def)
  then show "\<exists>suf. s = pre @ suf" ..
next
  assume "\<exists>suf. s = pre @ suf"
  then show "startsWith s pre" by (auto simp: startsWith_def)
qed

lemma js_includes_iff: "js_includes s sub \<longleftrightarrow> (\<exists>pre suf. s = pre @ sub @ suf)"
proof (induction s)
  case Nil
  show ?case by auto
next
  case (Cons c cs)
  have "(\<exists>pre suf. c # cs = pre @ sub @ suf) \<longleftrightarrow>
        (\<exists>suf. c # cs = sub @ suf) \<or> (\<exists>pre suf. cs = pre @ sub @ suf)"
  proof
    assume "\<exists>pre suf. c # cs = pre @ sub @ suf"
    then obtain pre suf where eq: "c # cs = pre @ sub @ suf" by blast
    show "(\<exists>suf. c # cs = sub @ suf) \<or> (\<exists>pre suf. cs = pre @ sub @ suf)"
    proof (cases pre)
      case Nil
      with eq show ?thesis by auto
    next
      case (Cons p ps)
      with eq have "cs = ps @ sub @ suf" by simp
      then show ?thesis by blast
    qed
  next
    assume "(\<exists>suf. c # cs = sub @ suf) \<or> (\<exists>pre suf. cs = pre @ sub @ suf)"
    then show "\<exists>pre suf. c # cs = pre @ sub @ suf"
    proof
      assume "\<exists>suf. c # cs = sub @ suf"
      then obtain suf where "c # cs = [] @ sub @ suf" by auto
      then show ?thesis by blast
    next
      assume "\<exists>pre suf. cs = pre @ sub @ suf"
      then obtain pre suf where "c # cs = (c # pre) @ sub @ suf" by auto
      then show ?thesis by blast
    qed
  qed
  with Cons show ?case by (simp add: startsWith_iff)
qed

lemma set_insert_cmp: "set (insert_cmp cmp x ys) = insert x (set ys)"
  by (induction ys) auto

lemma mset_insert_cmp: "mset (insert_cmp cmp x ys) = add_mset x (mset ys)"
  by (induction ys) auto

lemma mset_sort_cmp: "mset (sort_cmp cmp xs) = mset xs"
  by (induction xs) (simp_all add: sort_cmp_def mset_insert_cmp)

lemma set_sort_cmp: "set (sort_cmp cmp xs) = set xs"
  using mset_sort_cmp [of cmp xs] by (metis set_mset_mset)

lemma length_sort_cmp: "length (sort_cmp cmp xs) = length xs"
  using mset_sort_cmp [of cmp xs] by (metis size_mset)

text \<open>
  A comparator \<open>(a, b) => b.key - a.key\<close> sorts by the key, descending, and leaves
  elements of equal key in their input order.
\<close>

lemma sorted_insert_desc:
  fixes k :: "'a \<Rightarrow> int"
  assumes "sorted_wrt (\<lambda>a b. k b \<le> k a) ys"
  shows "sorted_wrt (\<lambda>a b. k b \<le> k a) (insert_cmp (\<lambda>a b. k b - k a) x ys)"
  using assms by (induction ys) (auto simp: set_insert_cmp)

lemma sorted_sort_desc:
  fixes k :: "'a \<Rightarrow> int"
  shows "sorted_wrt (\<lambda>a b. k b \<le> k a) (sort_cmp (\<lambda>a b. k b - k a) xs)"
proof (induction xs)
  case Nil
  show ?case by (simp add: sort_cmp_def)
next
  case (Cons x xs)
  then show ?case
    using sorted_insert_desc [of k "sort_cmp (\<lambda>a b. k b - k a) xs" x]
    by (simp add: sort_cmp_def)
qed

text \<open>The result is that of the library's stable sort on the negated key.\<close>

lemma insert_cmp_insort_key:
  fixes k :: "'a \<Rightarrow> int"
  shows "insert_cmp (\<lambda>a b. k b - k a) x ys = insort_key (\<lambda>a. - k a) x ys"
  by (induction ys) simp_all

lemma sort_cmp_sort_key:
  fixes k :: "'a \<Rightarrow> int"
  shows "sort_cmp (\<lambda>a b. k b - k a) xs = sort_key (\<lambda>a. - k a) xs"
  by (induction xs) (simp_all add: sort_cmp_def insert_cmp_insort_key)

lemma filter_insert_desc:
  fixes k :: "'a \<Rightarrow> int"
  shows "filter (\<lambda>y. k y = v) (insert_cmp (\<lambda>a b. k b - k a) x ys) =
         (if k x = v then x # filter (\<lambda>y. k y = v) ys else filter (\<lambda>y. k y = v) ys)"
  by (induction ys) auto

lemma stable_sort_desc:
  fixes k :: "'a \<Rightarrow> int"
  shows "filter (\<lambda>y. k y = v) (sort_cmp (\<lambda>a b. k b - k a) xs) = filter (\<lambda>y. k y = v) xs"
  by (induction xs) (simp_all add: sort_cmp_def filter_insert_desc)

section \<open>Properties of the bundle analyzer\<close>

subsection \<open>Chunks\<close>

text \<open>
  Claim C8. For every build statistics input the chunk summaries of the analysis are
  sorted by size, descending, and chunks of equal size keep their input order: for each
  size, the summaries of that size appear in the result in the order in which the input
  lists them. The result is a rearrangement of the summaries of the input chunks.
\<close>

theorem analyzeChunks_sorted_stable:
  "sorted_wrt (\<lambda>a b. ci_size a \<ge> ci_size b) (ba_chunks (analyzeWebpackStats stats))
   \<and> (\<forall>v. filter (\<lambda>c. ci_size c = v) (ba_chunks (analyzeWebpackStats stats)) =
            filter (\<lambda>c. ci_size c = v) (map chunkInfo (chunks stats)))
   \<and> mset (ba_chunks (analyzeWebpackStats stats)) = mset (map chunkInfo (chunks stats))"
  by (simp add: analyzeWebpackStats_def Let_def analyzeChunks_def sorted_sort_desc
      stable_sort_desc mset_sort_cmp)

subsection \<open>Large modules\<close>

text \<open>
  Claim C9. For every build statistics input \<open>largeModules\<close> has at most 20 entries,
  every entry has a size strictly above 50,000 bytes, and the list is sorted by size,
  descending.
\<close>

theorem findLargeModules_bounded_sorted:
  "length (largeModules (analyzeWebpackStats stats)) \<le> 20
   \<and> (\<forall>m \<in> set (largeModules (analyzeWebpackStats stats)). mi_size m > 50000)
   \<and> sorted_wrt (\<lambda>a b. mi_size a \<ge> mi_size b) (largeModules (analyzeWebpackStats stats))"
proof -
  let ?big = "map moduleInfo
     (filter (\<lambda>m. num_or (mod_size m) 0 > LARGE_MODULE_THRESHOLD) (stats_modules stats))"
  let ?sorted = "sort_cmp (\<lambda>a b. mi_size b - mi_size a) ?big"
  have lm: "largeModules (analyzeWebpackStats stats) = take 20 ?sorted"
    by (simp add: analyzeWebpackStats_def Let_def findLargeModules_def slice0_def)
  have len: "length (take 20 ?sorted) \<le> 20" by simp
  have big: "\<forall>m \<in> set ?big. mi_size m > 50000"
    by (auto simp: moduleInfo_def LARGE_MODULE_THRESHOLD_def)
  have sub: "set (take 20 ?sorted) \<subseteq> set ?big"
    using set_take_subset [of 20 ?sorted] by (simp add: set_sort_cmp)
  have srt: "sorted_wrt (\<lambda>a b. mi_size b \<le> mi_size a) (take 20 ?sorted)"
    using sorted_sort_desc [of mi_size ?big] by (rule sorted_wrt_take)
  show ?thesis unfolding lm using len big sub srt by blast
qed

text \<open>On the fixture of the test suite the list is the two lodash copies, then react.\<close>

theorem findLargeModules_bounded_sorted_witness:
  "map mi_size (largeModules (analyzeWebpackStats createMockWebpackStats))
     = [230000, 230000, 120000]
   \<and> length (largeModules (analyzeWebpackStats createMockWebpackStats)) \<le> 20
   \<and> list_all (\<lambda>m. mi_size m > 50000)
        (largeModules (analyzeWebpackStats createMockWebpackStats))"
proof -
  have ev: "map mi_size (largeModules (analyzeWebpackStats createMockWebpackStats))
     = [230000, 230000, 120000]"
    by code_simp
  show ?thesis
    using ev findLargeModules_bounded_sorted [of createMockWebpackStats]
    by (simp add: list_all_iff)
qed

subsection \<open>Asset metrics\<close>

lemma fold_metrics_step:
  "fold metrics_step as m =
     \<lparr> jsSize = jsSize m + sum_list (map (\<lambda>a. num_or (asset_size a) 0)
          (filter (\<lambda>a. endsWith (str_or (asset_name a) []) ''.js'') as)),
       cssSize = cssSize m + sum_list (map (\<lambda>a. num_or (asset_size a) 0)
          (filter (\<lambda>a. \<not> endsWith (str_or (asset_name a) []) ''.js''
                      \<and> endsWith (str_or (asset_name a) []) ''.css'') as)),
       imageSize = imageSize m + sum_list (map (\<lambda>a. num_or (asset_size a) 0)
          (filter (\<lambda>a. \<not> endsWith (str_or (asset_name a) []) ''.js''
                      \<and> \<not> endsWith (str_or (asset_name a) []) ''.css''
                      \<and> is_image (str_or (asset_name a) [])) as)),
       otherSize = otherSize m + sum_list (map (\<lambda>a. num_or (asset_size a) 0)
          (filter (\<lambda>a. \<not> endsWith (str_or (asset_name a) []) ''.js''
                      \<and> \<not> endsWith (str_or (asset_name a) []) ''.css''
                      \<and> \<not> is_image (str_or (asset_name a) [])) as)) \<rparr>"
  by (induction as arbitrary: m) (simp_all add: metrics_step_def Let_def)

lemma fold_metrics_total:
  "jsSize (fold metrics_step as m) + cssSize (fold metrics_step as m)
     + imageSize (fold metrics_step as m) + otherSize (fold metrics_step as m)
   = jsSize m + cssSize m + imageSize m + otherSize m
     + sum_list (map (\<lambda>a. num_or (asset_size a) 0) as)"
  by (induction as arbitrary: m) (simp_all add: metrics_step_def Let_def)

lemma fold_totalSize:
  "fold (\<lambda>asset sum. sum + num_or (asset_size asset) 0) as s =
     s + sum_list (map (\<lambda>a. num_or (asset_size a) 0) as)"
  by (induction as arbitrary: s) simp_all

text \<open>
  Claim C4. For every build statistics input the four buckets partition the assets by
  the suffix of the file name (\<open>.js\<close>, else \<open>.css\<close>, else one of the image
  suffixes, else other), each asset's size (0 when missing) going to one bucket, and the
  four buckets add up to the sum of all asset sizes, which is the \<open>totalSize\<close> of the
  analysis.
\<close>

theorem calculateMetrics_partition:
  "jsSize (metrics (analyzeWebpackStats stats)) + cssSize (metrics (analyzeWebpackStats stats))
     + imageSize (metrics (analyzeWebpackStats stats))
     + otherSize (metrics (analyzeWebpackStats stats))
   = sum_list (map (\<lambda>a. case asset_size a of None \<Rightarrow> 0 | Some n \<Rightarrow> n) (assets stats))
   \<and> totalSize (analyzeWebpackStats stats)
   = sum_list (map (\<lambda>a. case asset_size a of None \<Rightarrow> 0 | Some n \<Rightarrow> n) (assets stats))
   \<and> metrics (analyzeWebpackStats stats) =
     \<lparr> jsSize = sum_list (map (\<lambda>a. num_or (asset_size a) 0)
          (filter (\<lambda>a. endsWith (str_or (asset_name a) []) ''.js'') (assets stats))),
       cssSize = sum_list (map (\<lambda>a. num_or (asset_size a) 0)
          (filter (\<lambda>a. \<not> endsWith (str_or (asset_name a) []) ''.js''
                      \<and> endsWith (str_or (asset_name a) []) ''.css'') (assets stats))),
       imageSize = sum_list (map (\<lambda>a. num_or (asset_size a) 0)
          (filter (\<lambda>a. \<not> endsWith (str_or (asset_name a) []) ''.js''
                      \<and> \<not> endsWith (str_or (asset_name a) []) ''.css''
                      \<and> is_image (str_or (asset_name a) [])) (assets stats))),
       otherSize = sum_list (map (\<lambda>a. num_or (asset_size a) 0)
          (filter (\<lambda>a. \<not> endsWith (str_or (asset_name a) []) ''.js''
                      \<and> \<not> endsWith (str_or (asset_name a) []) ''.css''
                      \<and> \<not> is_image (str_or (asset_name a) [])) (assets stats))) \<rparr>"
proof -
  have m: "metrics (analyzeWebpackStats stats) = calculateMetrics stats"
    by (simp add: analyzeWebpackStats_def Let_def)
  have t: "totalSize (analyzeWebpackStats stats) =
      sum_list (map (\<lambda>a. num_or (asset_size a) 0) (assets stats))"
    by (simp add: analyzeWebpackStats_def Let_def fold_totalSize)
  have b: "jsSize (calculateMetrics stats) + cssSize (calculateMetrics stats)
      + imageSize (calculateMetrics stats) + otherSize (calculateMetrics stats)
      = sum_list (map (\<lambda>a. num_or (asset_size a) 0) (assets stats))"
    unfolding calculateMetrics_def by (simp add: fold_metrics_total)
  have c: "calculateMetrics stats =
     \<lparr> jsSize = sum_list (map (\<lambda>a. num_or (asset_size a) 0)
          (filter (\<lambda>a. endsWith (str_or (asset_name a) []) ''.js'') (assets stats))),
       cssSize = sum_list (map (\<lambda>a. num_or (asset_size a) 0)
          (filter (\<lambda>a. \<not> endsWith (str_or (asset_name a) []) ''.js''
                      \<and> endsWith (str_or (asset_name a) []) ''.css'') (assets stats))),
       imageSize = sum_list (map (\<lambda>a. num_or (asset_size a) 0)
          (filter (\<lambda>a. \<not> endsWith (str_or (asset_name a) []) ''.js''
                      \<and> \<not> endsWith (str_or (asset_name a) []) ''.css''
                      \<and> is_image (str_or (asset_name a) [])) (assets stats))),
       otherSize = sum_list (map (\<lambda>a. num_or (asset_size a) 0)
          (filter (\<lambda>a. \<not> endsWith (str_or (asset_name a) []) ''.js''
                      \<and> \<not> endsWith (str_or (asset_name a) []) ''.css''
                      \<and> \<not> is_image (str_or (asset_name a) [])) (assets stats))) \<rparr>"
    unfolding calculateMetrics_def by (simp add: fold_metrics_step)
  have b': "jsSize (metrics (analyzeWebpackStats stats))
      + cssSize (metrics (analyzeWebpackStats stats))
      + imageSize (metrics (analyzeWebpackStats stats))
      + otherSize (metrics (analyzeWebpackStats stats))
      = sum_list (map (\<lambda>a. case asset_size a of None \<Rightarrow> 0 | Some n \<Rightarrow> n) (assets stats))"
    using b unfolding m by (simp add: num_or_zero)
  have t': "totalSize (analyzeWebpackStats stats)
      = sum_list (map (\<lambda>a. case asset_size a of None \<Rightarrow> 0 | Some n \<Rightarrow> n) (assets stats))"
    using t by (simp add: num_or_zero)
  from b' t' c show ?thesis unfolding m by blast
qed

subsection \<open>Empty statistics\<close>

text \<open>Statistics with empty lists give the all-zero, all-empty analysis.\<close>

lemma analyzeWebpackStats_empty:
  "analyzeWebpackStats \<lparr> assets = [], chunks = [], modules = ms \<rparr> = a \<Longrightarrow>
   ms = None \<or> ms = Some [] \<Longrightarrow>
   a = \<lparr> totalSize = 0, ba_chunks = [], largeModules = [], duplicates = [],
         ba_recommendations = [],
         metrics = \<lparr> jsSize = 0, cssSize = 0, imageSize = 0, otherSize = 0 \<rparr> \<rparr>"
  by (auto simp: analyzeWebpackStats_def Let_def analyzeChunks_def findLargeModules_def
      findDuplicateModules_def calculateMetrics_def generateBundleRecommendations_def
      stats_modules_def moduleMap_of_def sort_cmp_def slice0_def)

subsection \<open>The bundle-size recommendation\<close>

text \<open>
  The recommendation is decided by the sum of the chunk sizes, whatever the assets are.
\<close>

lemma bundle_size_recommendation_iff:
  "has_recommendation Critical ''bundle-size'' (generateBundleRecommendations cs lms dups ms)
   \<longleftrightarrow> sum_list (map ci_size cs) > 500000"
  by (auto simp: has_recommendation_def generateBundleRecommendations_def list_ex_iff)

text \<open>
  Claim C1 says that the critical bundle-size recommendation is present exactly when
  \<open>totalSize\<close>, the sum of the asset sizes, exceeds 500,000. On a build with one
  asset of 600,000 bytes and one chunk of 400,000 bytes the analysis reports
  \<open>totalSize = 600000\<close> and no such recommendation; with the two sizes exchanged it
  reports \<open>totalSize = 400000\<close> and the recommendation.
\<close>

theorem bundle_size_recommendation_failing_input:
  "totalSize (analyzeWebpackStats
     \<lparr> assets = [\<lparr> asset_name = Some ''main.js'', asset_size = Some 600000 \<rparr>],
       chunks = [\<lparr> chunk_id = Some (IdNum 0), chunk_names = Some [''main''],
                   chunk_size = Some 400000, chunk_files = Some [''main.js''],
                   chunk_initial = Some True, chunk_modules = Some [],
                   chunk_parents = Some [] \<rparr>],
       modules = Some [] \<rparr>) = 600000
   \<and> \<not> has_recommendation Critical ''bundle-size'' (ba_recommendations (analyzeWebpackStats
     \<lparr> assets = [\<lparr> asset_name = Some ''main.js'', asset_size = Some 600000 \<rparr>],
       chunks = [\<lparr> chunk_id = Some (IdNum 0), chunk_names = Some [''main''],
                   chunk_size = Some 400000, chunk_files = Some [''main.js''],
                   chunk_initial = Some True, chunk_modules = Some [],
                   chunk_parents = Some [] \<rparr>],
       modules = Some [] \<rparr>))
   \<and> totalSize (analyzeWebpackStats
     \<lparr> assets = [\<lparr> asset_name = Some ''main.js'', asset_size = Some 400000 \<rparr>],
       chunks = [\<lparr> chunk_id = Some (IdNum 0), chunk_names = Some [''main''],
                   chunk_size = Some 600000, chunk_files = Some [''main.js''],
                   chunk_initial = Some True, chunk_modules = Some [],
                   chunk_parents = Some [] \<rparr>],
       modules = Some [] \<rparr>) = 400000
   \<and> has_recommendation Critical ''bundle-size'' (ba_recommendations (analyzeWebpackStats
     \<lparr> assets = [\<lparr> asset_name = Some ''main.js'', asset_size = Some 400000 \<rparr>],
       chunks = [\<lparr> chunk_id = Some (IdNum 0), chunk_names = Some [''main''],
                   chunk_size = Some 600000, chunk_files = Some [''main.js''],
                   chunk_initial = Some True, chunk_modules = Some [],
                   chunk_parents = Some [] \<rparr>],
       modules = Some [] \<rparr>))"
  by (simp add: analyzeWebpackStats_def Let_def bundle_size_recommendation_iff
      analyzeChunks_def sort_cmp_def chunkInfo_def num_or_def)

subsection \<open>Duplicate modules\<close>

text \<open>
  \<open>extractModuleName\<close> and the regular expression: a name that ends in a non-empty
  stem free of separators, which starts the name or follows a separator, then a dot and
  one of the four extensions, is mapped to the stem; and a name is changed only in that
  way.
\<close>

lemma last_segment_append:
  assumes "\<forall>c \<in> set stem. \<not> is_separator c" "pre = [] \<or> is_separator (last pre)"
  shows "last_segment (pre @ stem) = stem"
proof -
  have "takeWhile (\<lambda>c. \<not> is_separator c) (rev pre) = []"
    using assms(2) by (cases pre rule: rev_cases) auto
  moreover have "takeWhile (\<lambda>c. \<not> is_separator c) (rev stem @ rev pre) =
      rev stem @ takeWhile (\<lambda>c. \<not> is_separator c) (rev pre)"
    by (rule takeWhile_append2) (use assms(1) in auto)
  ultimately have "takeWhile (\<lambda>c. \<not> is_separator c) (rev stem @ rev pre) = rev stem"
    by simp
  then show ?thesis by (simp add: last_segment_def)
qed

lemma extension_length_cases:
  "extension_length (body @ ''.js'') = Some 3"
  "extension_length (body @ ''.ts'') = Some 3"
  "extension_length (body @ ''.jsx'') = Some 4"
  "extension_length (body @ ''.tsx'') = Some 4"
  by (simp_all add: extension_length_def endsWith_def)

lemma extractModuleName_match:
  assumes "stem \<noteq> []" "\<forall>c \<in> set stem. \<not> is_separator c"
    and "pre = [] \<or> is_separator (last pre)"
    and "ext \<in> {''js'', ''jsx'', ''ts'', ''tsx''}"
  shows "extractModuleName (pre @ stem @ ''.'' @ ext) = stem"
proof -
  have seg: "last_segment (pre @ stem) = stem"
    using assms(2,3) by (rule last_segment_append)
  from assms(4) consider "ext = ''js''" | "ext = ''jsx''" | "ext = ''ts''" | "ext = ''tsx''"
    by auto
  then show ?thesis
  proof cases
    case 1
    have "extension_length ((pre @ stem) @ ''.js'') = Some 3" by (rule extension_length_cases)
    then show ?thesis using 1 seg assms(1) by (simp add: extractModuleName_def)
  next
    case 2
    have "extension_length ((pre @ stem) @ ''.jsx'') = Some 4" by (rule extension_length_cases)
    then show ?thesis using 2 seg assms(1) by (simp add: extractModuleName_def)
  next
    case 3
    have "extension_length ((pre @ stem) @ ''.ts'') = Some 3" by (rule extension_length_cases)
    then show ?thesis using 3 seg assms(1) by (simp add: extractModuleName_def)
  next
    case 4
    have "extension_length ((pre @ stem) @ ''.tsx'') = Some 4" by (rule extension_length_cases)
    then show ?thesis using 4 seg assms(1) by (simp add: extractModuleName_def)
  qed
qed

lemma last_segment_decompose:
  "\<exists>pre. body = pre @ last_segment body \<and> (pre = [] \<or> is_separator (last pre))
         \<and> (\<forall>c \<in> set (last_segment body). \<not> is_separator c)"
proof -
  let ?p = "\<lambda>c. \<not> is_separator c"
  have split: "rev body = takeWhile ?p (rev body) @ dropWhile ?p (rev body)" by simp
  have body: "body = rev (dropWhile ?p (rev body)) @ last_segment body"
    unfolding last_segment_def by (metis rev_append rev_rev_ident split)
  have sep: "rev (dropWhile ?p (rev body)) = [] \<or> is_separator (last (rev (dropWhile ?p (rev body))))"
  proof (cases "dropWhile ?p (rev body)")
    case Nil
    then show ?thesis by simp
  next
    case (Cons c cs)
    then have "is_separator c" by (metis hd_dropWhile list.distinct(1) list.sel(1))
    with Cons show ?thesis by simp
  qed
  have free: "\<forall>c \<in> set (last_segment body). \<not> is_separator c"
    by (auto simp: last_segment_def dest: set_takeWhileD)
  from body sep free show ?thesis by blast
qed

lemma extractModuleName_no_match:
  assumes "extractModuleName s \<noteq> s"
  shows "\<exists>pre ext. s = pre @ extractModuleName s @ ''.'' @ ext
           \<and> ext \<in> {''js'', ''jsx'', ''ts'', ''tsx''}
           \<and> extractModuleName s \<noteq> []
           \<and> (\<forall>c \<in> set (extractModuleName s). \<not> is_separator c)
           \<and> (pre = [] \<or> is_separator (last pre))"
proof -
  from assms obtain k where k: "extension_length s = Some k"
    by (auto simp: extractModuleName_def split: option.splits)
  let ?body = "take (length s - k) s"
  from assms k have stem: "extractModuleName s = last_segment ?body" "last_segment ?body \<noteq> []"
    by (auto simp: extractModuleName_def Let_def split: if_splits)
  from k obtain ext where ext: "ext \<in> {''js'', ''jsx'', ''ts'', ''tsx''}"
    "s = ?body @ ''.'' @ ext"
  proof -
    from k consider "endsWith s ''.js''" "k = 3" | "endsWith s ''.ts''" "k = 3"
      | "endsWith s ''.jsx''" "k = 4" | "endsWith s ''.tsx''" "k = 4"
      by (auto simp: extension_length_def split: if_splits)
    then show ?thesis
    proof cases
      case 1 then show ?thesis using endsWith_decompose [of s "''.js''" k] that [of "''js''"] by simp
    next
      case 2 then show ?thesis using endsWith_decompose [of s "''.ts''" k] that [of "''ts''"] by simp
    next
      case 3 then show ?thesis using endsWith_decompose [of s "''.jsx''" k] that [of "''jsx''"] by simp
    next
      case 4 then show ?thesis using endsWith_decompose [of s "''.tsx''" k] that [of "''tsx''"] by simp
    qed
  qed
  from last_segment_decompose [of ?body] obtain pre where pre:
    "?body = pre @ last_segment ?body" "pre = [] \<or> is_separator (last pre)"
    "\<forall>c \<in> set (last_segment ?body). \<not> is_separator c" by blast
  have "s = pre @ last_segment ?body @ ''.'' @ ext"
    using ext(2) pre(1) by (metis append.assoc)
  with ext(1) stem pre(2,3) show ?thesis by metis
qed


lemma moduleMap_of_snoc: "moduleMap_of (ms @ [m]) = duplicate_step m (moduleMap_of ms)"
  by (simp add: moduleMap_of_def)

lemma distinct_duplicate_step:
  "distinct (map fst al) \<Longrightarrow> distinct (map fst (duplicate_step m al))"
  by (simp add: duplicate_step_def distinct_update split: option.splits)

lemma distinct_moduleMap_of: "distinct (map fst (moduleMap_of ms))"
  by (induction ms rule: rev_induct)
     (simp_all add: moduleMap_of_snoc distinct_duplicate_step, simp add: moduleMap_of_def)

lemma map_of_moduleMap_of:
  "map_of (moduleMap_of ms) n =
     (if filter (\<lambda>m. \<not> skipped m \<and> base_name m = n) ms = [] then None
      else Some \<lparr> mg_instances = length (filter (\<lambda>m. \<not> skipped m \<and> base_name m = n) ms),
                  mg_totalSize = sum_list (map (\<lambda>m. num_or (mod_size m) 0)
                     (filter (\<lambda>m. \<not> skipped m \<and> base_name m = n) ms)),
                  mg_locations = map (\<lambda>m. str_or (mod_identifier m) [])
                     (filter (\<lambda>m. \<not> skipped m \<and> base_name m = n) ms) \<rparr>)"
proof (induction ms rule: rev_induct)
  case Nil
  show ?case by (simp add: moduleMap_of_def)
next
  case (snoc m ms)
  show ?case
  proof (cases "skipped m")
    case True
    then show ?thesis using snoc by (simp add: moduleMap_of_snoc duplicate_step_def)
  next
    case False
    show ?thesis
    proof (cases "base_name m = n")
      case True
      with False snoc show ?thesis
        by (simp add: moduleMap_of_snoc duplicate_step_def update_conv' split: option.splits)
    next
      case neq: False
      with False snoc show ?thesis
        by (simp add: moduleMap_of_snoc duplicate_step_def update_conv' split: option.splits)
    qed
  qed
qed


lemma set_findDuplicateModules:
  "set (findDuplicateModules stats) =
     duplicate_entry ` {e \<in> set (moduleMap_of (stats_modules stats)). mg_instances (snd e) > 1}"
  by (simp add: findDuplicateModules_def set_sort_cmp)

text \<open>
  Claim C2, as amended. The grouping skips exactly the modules whose extracted base name
  (the stem before a JS/TS extension, or the whole name where there is none, a missing
  name counting as empty) is empty or contains \<open>webpack\<close> or \<open>node_modules\<close>. For
  every base name that two or more modules that are not skipped share, the duplicates
  list holds a group of that name whose \<open>instances\<close> is the number of those modules;
  and every group of the list has that number of instances, which is at least 2.
\<close>

theorem findDuplicateModules_groups:
  "(skipped m \<longleftrightarrow> base_name m = [] \<or> js_includes (base_name m) ''webpack''
                    \<or> js_includes (base_name m) ''node_modules'')
   \<and> (2 \<le> length (filter (\<lambda>m. \<not> skipped m \<and> base_name m = n) (stats_modules stats)) \<longrightarrow>
        (\<exists>d \<in> set (findDuplicateModules stats). dup_name d = n \<and>
           dup_instances d =
             length (filter (\<lambda>m. \<not> skipped m \<and> base_name m = n) (stats_modules stats))))
   \<and> (\<forall>d \<in> set (findDuplicateModules stats). dup_name d = n \<longrightarrow>
         dup_instances d =
           length (filter (\<lambda>m. \<not> skipped m \<and> base_name m = n) (stats_modules stats))
         \<and> 2 \<le> dup_instances d)"
proof -
  let ?ms = "stats_modules stats"
  let ?g = "filter (\<lambda>m. \<not> skipped m \<and> base_name m = n) ?ms"
  let ?data = "\<lparr> mg_instances = length ?g,
                  mg_totalSize = sum_list (map (\<lambda>m. num_or (mod_size m) 0) ?g),
                  mg_locations = map (\<lambda>m. str_or (mod_identifier m) []) ?g \<rparr>"
  have dist: "distinct (map fst (moduleMap_of ?ms))" by (rule distinct_moduleMap_of)
  have look: "map_of (moduleMap_of ?ms) n = (if ?g = [] then None else Some ?data)"
    by (rule map_of_moduleMap_of)
  have forward: "\<exists>d \<in> set (findDuplicateModules stats). dup_name d = n \<and> dup_instances d = length ?g"
    if two: "2 \<le> length ?g"
  proof -
    from two have "?g \<noteq> []" by auto
    with look have "map_of (moduleMap_of ?ms) n = Some ?data" by simp
    with dist have "(n, ?data) \<in> set (moduleMap_of ?ms)" by simp
    with two have "duplicate_entry (n, ?data) \<in> set (findDuplicateModules stats)"
      unfolding set_findDuplicateModules by force
    then show ?thesis by (force simp: duplicate_entry_def)
  qed
  have backward: "dup_instances d = length ?g \<and> 2 \<le> dup_instances d"
    if d: "d \<in> set (findDuplicateModules stats)" and nm: "dup_name d = n" for d
  proof -
    from d obtain e where e: "e \<in> set (moduleMap_of ?ms)" "mg_instances (snd e) > 1"
      "d = duplicate_entry e"
      unfolding set_findDuplicateModules by auto
    from e(3) nm have "fst e = n" by (simp add: duplicate_entry_def)
    with e(1) dist have "map_of (moduleMap_of ?ms) n = Some (snd e)"
      by (metis map_of_eq_Some_iff prod.collapse)
    with look have "snd e = ?data" by (simp split: if_splits)
    with e(2,3) show ?thesis by (simp add: duplicate_entry_def)
  qed
  have sk: "skipped m \<longleftrightarrow> base_name m = [] \<or> js_includes (base_name m) ''webpack''
                    \<or> js_includes (base_name m) ''node_modules''"
    by (simp add: skipped_def)
  from sk forward backward show ?thesis by blast
qed

text \<open>
  On the fixture of the test suite, the two modules named \<open>lodash\<close> form a group.
\<close>

theorem findDuplicateModules_groups_witness:
  "length (filter (\<lambda>m. \<not> skipped m \<and> base_name m = ''lodash'')
      (stats_modules createMockWebpackStats)) = 2
   \<and> list_ex (\<lambda>d. dup_name d = ''lodash'' \<and> dup_instances d = 2)
       (findDuplicateModules createMockWebpackStats)"
proof -
  have ev: "length (filter (\<lambda>m. \<not> skipped m \<and> base_name m = ''lodash'')
      (stats_modules createMockWebpackStats)) = 2"
    by code_simp
  show ?thesis
    using ev findDuplicateModules_groups
      [of "chunk_module ''lodash'' 230000 ''node_modules/lodash/lodash.js''"
          "''lodash''" createMockWebpackStats]
    unfolding list_ex_iff by auto
qed

text \<open>
  Claim C2 as stated fails: two modules whose raw names contain \<open>node_modules\<close> and end
  in \<open>lodash.js\<close> are not excluded, since their extracted name is \<open>lodash\<close>, and
  they form a group; and a module without a name is skipped although its raw name
  contains neither substring.
\<close>

theorem duplicate_exclusion_counterexample:
  "spec_excluded_by_raw_name (chunk_module ''./node_modules/a/lodash.js'' 100 ''/a/lodash.js'')
   \<and> spec_excluded_by_raw_name (chunk_module ''./node_modules/b/lodash.js'' 120 ''/b/lodash.js'')
   \<and> findDuplicateModules
       \<lparr> assets = [], chunks = [],
         modules = Some [chunk_module ''./node_modules/a/lodash.js'' 100 ''/a/lodash.js'',
                         chunk_module ''./node_modules/b/lodash.js'' 120 ''/b/lodash.js''] \<rparr>
     = [\<lparr> dup_name = ''lodash'', dup_instances = 2, dup_totalSize = 220,
           dup_locations = [''/a/lodash.js'', ''/b/lodash.js''] \<rparr>]
   \<and> skipped \<lparr> mod_name = None, mod_size = Some 5, mod_identifier = None,
               mod_reasons = None, mod_depth = None \<rparr>
   \<and> \<not> spec_excluded_by_raw_name \<lparr> mod_name = None, mod_size = Some 5, mod_identifier = None,
               mod_reasons = None, mod_depth = None \<rparr>"
  by code_simp

section \<open>Properties of the re-render analyzer\<close>

lemma componentMap_of_snoc: "componentMap_of (es @ [e]) = group_step e (componentMap_of es)"
  by (simp add: componentMap_of_def)

lemma distinct_group_step:
  "distinct (map fst al) \<Longrightarrow> distinct (map fst (group_step e al))"
  by (simp add: group_step_def distinct_update split: option.splits)

lemma distinct_componentMap_of: "distinct (map fst (componentMap_of es))"
proof (induction es rule: rev_induct)
  case Nil
  show ?case by (simp add: componentMap_of_def)
next
  case (snoc e es)
  then show ?case by (simp add: componentMap_of_snoc distinct_group_step)
qed

lemma map_of_componentMap_of:
  "map_of (componentMap_of es) n =
     (if filter (\<lambda>e. componentName e = n) es = [] then None
      else Some (filter (\<lambda>e. componentName e = n) es))"
proof (induction es rule: rev_induct)
  case Nil
  show ?case by (simp add: componentMap_of_def)
next
  case (snoc e es)
  show ?case
  proof (cases "componentName e = n")
    case True
    with snoc show ?thesis
      by (simp add: componentMap_of_snoc group_step_def update_conv' split: option.splits)
  next
    case False
    with snoc show ?thesis
      by (simp add: componentMap_of_snoc group_step_def update_conv' split: option.splits)
  qed
qed

lemma componentMap_of_groups:
  assumes "(n, evs) \<in> set (componentMap_of es)"
  shows "evs = filter (\<lambda>e. componentName e = n) es \<and> evs \<noteq> []"
proof -
  from assms distinct_componentMap_of [of es] have "map_of (componentMap_of es) n = Some evs"
    by simp
  then show ?thesis by (simp add: map_of_componentMap_of split: if_splits)
qed

lemma sum_lengths_update_Some:
  "map_of al k = Some old \<Longrightarrow>
   sum_list (map (\<lambda>p. length (snd p)) (AList.update k (old @ [e]) al)) =
     Suc (sum_list (map (\<lambda>p. length (snd p)) al))"
  by (induction al) (auto split: if_splits)

lemma sum_lengths_update_None:
  "map_of al k = None \<Longrightarrow>
   sum_list (map (\<lambda>p. length (snd p)) (AList.update k [e] al)) =
     Suc (sum_list (map (\<lambda>p. length (snd p)) al))"
  by (induction al) (auto split: if_splits)

lemma sum_lengths_componentMap_of:
  "sum_list (map (\<lambda>p. length (snd p)) (componentMap_of es)) = length es"
proof (induction es rule: rev_induct)
  case Nil
  show ?case by (simp add: componentMap_of_def)
next
  case (snoc e es)
  then show ?case
    by (simp add: componentMap_of_snoc group_step_def sum_lengths_update_Some
        sum_lengths_update_None split: option.splits)
qed

lemma renderCount_component_info [simp]: "renderCount (component_info ops n evs) = length evs"
  by (simp add: component_info_def Let_def)

lemma cri_name_component_info [simp]: "cri_name (component_info ops n evs) = n"
  by (simp add: component_info_def Let_def)

lemma component_step_fields:
  "ls_components (component_step ops en st) =
     ls_components st @ [component_info ops (fst en) (snd en)]"
  "ls_totalRerenders (component_step ops en st) = ls_totalRerenders st + length (snd en)"
  "ls_unnecessaryRerenders (component_step ops en st) =
     ls_unnecessaryRerenders st +
       (if isUnnecessary (component_info ops (fst en) (snd en)) then length (snd en) else 0)"
  by (simp_all add: component_step_def Let_def)

lemma fold_component_step:
  "fold (component_step ops) entries st =
     \<lparr> ls_components =
         ls_components st @ map (\<lambda>en. component_info ops (fst en) (snd en)) entries,
       ls_totalRerenders =
         ls_totalRerenders st + sum_list (map (\<lambda>p. length (snd p)) entries),
       ls_unnecessaryRerenders =
         ls_unnecessaryRerenders st +
         sum_list (map renderCount
           (filter isUnnecessary
              (map (\<lambda>en. component_info ops (fst en) (snd en)) entries))) \<rparr>"
proof (induction entries arbitrary: st)
  case Nil
  show ?case by simp
next
  case (Cons en entries)
  have "fold (component_step ops) (en # entries) st =
      fold (component_step ops) entries (component_step ops en st)"
    by simp
  also note Cons.IH [of "component_step ops en st"]
  finally show ?case
    by (simp add: component_step_fields)
qed

text \<open>
  In exact arithmetic the computed \<open>avgRenderTime\<close> is the arithmetic mean of the
  durations.
\<close>

lemma fold_durations:
  fixes a :: rat
  shows "fold (\<lambda>e sum. sum + duration e) evs a = a + sum_list (map duration evs)"
  by (induction evs arbitrary: a) simp_all

lemma avgRenderTime_exact:
  "avgRenderTime (component_info exact_ops n evs) =
     sum_list (map duration evs) / of_nat (length evs)"
  by (simp add: component_info_def exact_ops_def Let_def fold_durations)

text \<open>
  Claim C5. For every stream of render events \<open>totalRerenders\<close> is the number of
  events; the empty stream gives no components, \<open>totalRerenders = 0\<close> and no
  recommendations.
\<close>

theorem totalRerenders_counts_events:
  "totalRerenders (analyzeRenderEvents ops events) = length events
   \<and> analyzeRenderEvents ops [] =
       \<lparr> components = [], totalRerenders = 0, unnecessaryRerenders = 0,
         ra_recommendations = [] \<rparr>"
proof -
  have "totalRerenders (analyzeRenderEvents ops events) = length events"
    by (simp add: analyzeRenderEvents_def Let_def fold_component_step
        sum_lengths_componentMap_of)
  moreover have "analyzeRenderEvents ops [] =
       \<lparr> components = [], totalRerenders = 0, unnecessaryRerenders = 0,
         ra_recommendations = [] \<rparr>"
    by (simp add: analyzeRenderEvents_def Let_def componentMap_of_def sort_cmp_def
        generateRerenderRecommendations_def slice0_def)
  ultimately show ?thesis by simp
qed

lemma sum_list_filter_mset:
  fixes f :: "'a \<Rightarrow> nat"
  assumes "mset xs = mset ys"
  shows "sum_list (map f (filter P xs)) = sum_list (map f (filter P ys))"
proof -
  have "mset (map f (filter P xs)) = mset (map f (filter P ys))"
    using assms by simp
  then have "sum_mset (mset (map f (filter P xs))) = sum_mset (mset (map f (filter P ys)))"
    by (rule arg_cong)
  then show ?thesis by (simp only: sum_mset_sum_list)
qed

text \<open>
  Claim C6. There is one component record per component name of the stream. Its
  \<open>renderCount\<close> is the number of events of that name; its \<open>avgRenderTime\<close> is the
  mean of their durations as the program computes it, the sum taken from the left
  starting at 0 and divided by \<open>renderCount\<close> in the arithmetic of the program's
  numbers; and its \<open>isUnnecessary\<close> holds exactly when \<open>renderCount > 5\<close> and
  \<open>avgRenderTime < 5\<close>. \<open>unnecessaryRerenders\<close> is the sum of \<open>renderCount\<close> over
  the records flagged \<open>isUnnecessary\<close>. This holds whatever the arithmetic \<open>ops\<close>
  is, so for floating-point numbers as well.
\<close>

theorem isUnnecessary_rule:
  "(\<forall>c \<in> set (components (analyzeRenderEvents ops events)).
      renderCount c = length (filter (\<lambda>e. componentName e = cri_name c) events)
      \<and> 0 < renderCount c
      \<and> avgRenderTime c =
          num_div ops
            (fold (\<lambda>e sum. num_add ops sum (duration e))
               (filter (\<lambda>e. componentName e = cri_name c) events) (num_of_nat ops 0))
            (num_of_nat ops (renderCount c))
      \<and> (isUnnecessary c \<longleftrightarrow>
           renderCount c > 5 \<and> num_less ops (avgRenderTime c) (num_of_nat ops 5)))
   \<and> unnecessaryRerenders (analyzeRenderEvents ops events) =
       sum_list (map renderCount
         (filter isUnnecessary (components (analyzeRenderEvents ops events))))
   \<and> distinct (map cri_name (components (analyzeRenderEvents ops events)))
   \<and> set (map cri_name (components (analyzeRenderEvents ops events)))
       = componentName ` set events"
proof -
  let ?infos = "map (\<lambda>en. component_info ops (fst en) (snd en)) (componentMap_of events)"
  let ?cmp = "\<lambda>a b. int (renderCount b) - int (renderCount a)"
  let ?P = "\<lambda>c. renderCount c = length (filter (\<lambda>e. componentName e = cri_name c) events)
      \<and> 0 < renderCount c
      \<and> avgRenderTime c =
          num_div ops
            (fold (\<lambda>e sum. num_add ops sum (duration e))
               (filter (\<lambda>e. componentName e = cri_name c) events) (num_of_nat ops 0))
            (num_of_nat ops (renderCount c))
      \<and> (isUnnecessary c \<longleftrightarrow>
           renderCount c > 5 \<and> num_less ops (avgRenderTime c) (num_of_nat ops 5))"
  have comps: "components (analyzeRenderEvents ops events) = sort_cmp ?cmp ?infos"
    by (simp add: analyzeRenderEvents_def Let_def fold_component_step)
  have unn: "unnecessaryRerenders (analyzeRenderEvents ops events) =
      sum_list (map renderCount (filter isUnnecessary ?infos))"
    by (simp add: analyzeRenderEvents_def Let_def fold_component_step)
  have perm: "mset (sort_cmp ?cmp ?infos) = mset ?infos" by (rule mset_sort_cmp)
  have each: "?P c" if "c \<in> set ?infos" for c
  proof -
    from that obtain n evs where en: "(n, evs) \<in> set (componentMap_of events)"
      and c: "c = component_info ops n evs" by auto
    from componentMap_of_groups [OF en]
    have evs: "evs = filter (\<lambda>e. componentName e = n) events" and ne: "evs \<noteq> []"
      by blast+
    have nm: "cri_name c = n" by (simp add: c)
    show ?thesis
      using ne unfolding nm unfolding c evs [symmetric]
      by (simp add: component_info_def Let_def)
  qed
  have names: "map cri_name ?infos = map fst (componentMap_of events)"
    by simp
  have mnames: "mset (map cri_name (sort_cmp ?cmp ?infos)) = mset (map fst (componentMap_of events))"
  proof -
    have "mset (map cri_name (sort_cmp ?cmp ?infos)) =
        image_mset cri_name (mset (sort_cmp ?cmp ?infos))"
      by (rule mset_map)
    also have "\<dots> = image_mset cri_name (mset ?infos)"
      by (simp only: perm)
    also have "\<dots> = mset (map cri_name ?infos)"
      by (rule mset_map [symmetric])
    finally show ?thesis by (simp only: names)
  qed
  have dist: "distinct (map cri_name (sort_cmp ?cmp ?infos))"
    using mset_eq_imp_distinct_iff [OF mnames] distinct_componentMap_of [of events]
    by blast
  have keys: "set (map fst (componentMap_of events)) = componentName ` set events"
  proof -
    have "n \<in> fst ` set (componentMap_of events) \<longleftrightarrow> n \<in> componentName ` set events" for n
    proof -
      have "n \<in> fst ` set (componentMap_of events) \<longleftrightarrow> map_of (componentMap_of events) n \<noteq> None"
        by (simp add: map_of_eq_None_iff)
      also have "\<dots> \<longleftrightarrow> filter (\<lambda>e. componentName e = n) events \<noteq> []"
        by (simp add: map_of_componentMap_of)
      also have "\<dots> \<longleftrightarrow> n \<in> componentName ` set events"
        by (auto simp: filter_empty_conv)
      finally show ?thesis .
    qed
    then show ?thesis by auto
  qed
  have nset: "set (map cri_name (sort_cmp ?cmp ?infos)) = componentName ` set events"
    using mset_eq_setD [OF mnames] keys by simp
  have sums: "sum_list (map renderCount (filter isUnnecessary ?infos)) =
      sum_list (map renderCount (filter isUnnecessary (sort_cmp ?cmp ?infos)))"
    by (rule sum_list_filter_mset [OF perm [symmetric]])
  have all: "\<forall>c \<in> set (sort_cmp ?cmp ?infos). ?P c"
    using each unfolding set_sort_cmp by blast
  have unn': "unnecessaryRerenders (analyzeRenderEvents ops events) =
      sum_list (map renderCount (filter isUnnecessary (sort_cmp ?cmp ?infos)))"
    using unn sums by (rule trans)
  from all unn' dist nset show ?thesis
    unfolding comps by blast
qed

text \<open>
  On the sample stream \<open>ProductList\<close>, with 8 renders of mean 3.25 ms, is flagged;
  \<open>Table\<close>, with 8 renders of mean 6.5 ms, and \<open>UserProfile\<close>, with one render,
  are not; the 8 renders of \<open>ProductList\<close> are the unnecessary ones.
\<close>

theorem isUnnecessary_rule_witness:
  "map cri_name (components (analyzeRenderEvents exact_ops sample_events))
     = [''ProductList'', ''Table'', ''UserProfile'']
   \<and> map avgRenderTime (components (analyzeRenderEvents exact_ops sample_events))
     = [13 / 4, 13 / 2, 37 / 2]
   \<and> list_all (\<lambda>c. isUnnecessary c \<longleftrightarrow>
          renderCount c > 5
          \<and> num_less exact_ops (avgRenderTime c) (num_of_nat exact_ops 5))
        (components (analyzeRenderEvents exact_ops sample_events))
   \<and> map isUnnecessary (components (analyzeRenderEvents exact_ops sample_events))
     = [True, False, False]
   \<and> unnecessaryRerenders (analyzeRenderEvents exact_ops sample_events) = 8"
proof -
  have ev: "map cri_name (components (analyzeRenderEvents exact_ops sample_events))
     = [''ProductList'', ''Table'', ''UserProfile'']"
    "map avgRenderTime (components (analyzeRenderEvents exact_ops sample_events))
     = [13 / 4, 13 / 2, 37 / 2]"
    "map isUnnecessary (components (analyzeRenderEvents exact_ops sample_events))
     = [True, False, False]"
    "unnecessaryRerenders (analyzeRenderEvents exact_ops sample_events) = 8"
    by code_simp+
  show ?thesis
    using ev isUnnecessary_rule [of exact_ops sample_events]
    unfolding list_all_iff by blast
qed

section \<open>Properties of the memory analyzer\<close>

lemma fold_add_sum_list:
  fixes xs :: "int list"
  shows "fold (\<lambda>b a. a + b) xs s = s + sum_list xs"
  by (induction xs arbitrary: s) simp_all

lemma growthRates_consecutive:
  "growthRates snaps = map2 (\<lambda>a b. heapUsed b - heapUsed a) snaps (tl snaps)"
proof (rule nth_equalityI)
  show "length (growthRates snaps) =
      length (map2 (\<lambda>a b. heapUsed b - heapUsed a) snaps (tl snaps))"
    by (simp add: growthRates_def)
next
  fix i
  assume "i < length (growthRates snaps)"
  then have i: "i < length snaps - 1" by (simp add: growthRates_def)
  then show "growthRates snaps ! i =
      map2 (\<lambda>a b. heapUsed b - heapUsed a) snaps (tl snaps) ! i"
    by (simp add: growthRates_def nth_tl)
qed

lemma avgGrowth_mean:
  "avgGrowth snaps =
     of_int (sum_list (map2 (\<lambda>a b. heapUsed b - heapUsed a) snaps (tl snaps)))
       / of_nat (length snaps - 1)"
proof -
  have "length (growthRates snaps) = length snaps - 1" by (simp add: growthRates_def)
  then show ?thesis
    by (simp add: avgGrowth_def fold_add_sum_list growthRates_consecutive [symmetric])
qed

lemma detectMemoryLeaks_nonempty:
  assumes "snaps \<noteq> []"
  shows "detectMemoryLeaks snaps =
     Inr (consistent_growth_leaks snaps @
          (if increase_above_half (heapUsed (last snaps) - heapUsed (hd snaps)) (heapUsed (hd snaps))
           then [\<lparr> leak_type = ''large-increase'', leak_severity = Warning,
                    leak_retainedSize = heapUsed (last snaps) - heapUsed (hd snaps),
                    leak_objects = [] \<rparr>]
           else []) @
          [the detectDetachedDOMNodes, the detectEventListenerLeaks])"
  using assms
  by (cases snaps)
     (simp_all add: detectMemoryLeaks_def Let_def detectDetachedDOMNodes_def
       detectEventListenerLeaks_def)

text \<open>
  Claim C7, as amended. For every sequence of at least 3 snapshots, a consistent-growth
  leak is emitted if and only if the arithmetic mean of the deltas between the
  \<open>heapUsed\<close> of consecutive snapshots exceeds 1,048,576 bytes; the emitted leak has
  severity critical and \<open>retainedSize\<close> equal to the floor of the mean delta times the
  number of snapshots. For snapshots with \<open>heapUsed\<close> 10, 12, 14 and 16 MiB the
  critical consistent-growth leak is present and the \<open>retainedSize\<close> of the analysis
  is 6 MiB.
\<close>

theorem consistent_growth_rule:
  "(3 \<le> length snaps \<longrightarrow>
     (\<exists>ls. detectMemoryLeaks snaps = Inr ls
        \<and> (has_leak ''consistent-growth'' ls \<longleftrightarrow>
             of_int (sum_list (map2 (\<lambda>a b. heapUsed b - heapUsed a) snaps (tl snaps)))
               / of_nat (length snaps - 1) > (1048576 :: rat))
        \<and> (\<forall>l \<in> set ls. leak_type l = ''consistent-growth'' \<longrightarrow>
              leak_severity l = Critical
              \<and> leak_retainedSize l =
                  \<lfloor>of_int (sum_list (map2 (\<lambda>a b. heapUsed b - heapUsed a) snaps (tl snaps)))
                     / of_nat (length snaps - 1) * (of_nat (length snaps) :: rat)\<rfloor>)))
   \<and> (map heapUsed snaps = [10485760, 12582912, 14680064, 16777216] \<longrightarrow>
        (\<exists>a. analyzeSnapshots snaps = Inr a
           \<and> list_ex (\<lambda>l. leak_type l = ''consistent-growth'' \<and> leak_severity l = Critical)
               (leaks a)
           \<and> ma_retainedSize a = 6291456))"
proof -
  let ?mean = "of_int (sum_list (map2 (\<lambda>a b. heapUsed b - heapUsed a) snaps (tl snaps)))
               / of_nat (length snaps - 1) :: rat"
  have general: "\<exists>ls. detectMemoryLeaks snaps = Inr ls
        \<and> (has_leak ''consistent-growth'' ls \<longleftrightarrow> ?mean > 1048576)
        \<and> (\<forall>l \<in> set ls. leak_type l = ''consistent-growth'' \<longrightarrow>
              leak_severity l = Critical
              \<and> leak_retainedSize l = \<lfloor>?mean * of_nat (length snaps)\<rfloor>)"
    if three: "3 \<le> length snaps"
  proof -
    from three have ne: "snaps \<noteq> []" by auto
    have cg: "consistent_growth_leaks snaps =
        (if ?mean > 1048576
         then [\<lparr> leak_type = ''consistent-growth'', leak_severity = Critical,
                  leak_retainedSize = \<lfloor>?mean * of_nat (length snaps)\<rfloor>,
                  leak_objects = [] \<rparr>]
         else [])"
      using three by (simp add: consistent_growth_leaks_def avgGrowth_mean)
    show ?thesis
      unfolding detectMemoryLeaks_nonempty [OF ne] cg
      by (simp add: has_leak_def detectDetachedDOMNodes_def detectEventListenerLeaks_def)
  qed
  have example: "\<exists>a. analyzeSnapshots snaps = Inr a
           \<and> list_ex (\<lambda>l. leak_type l = ''consistent-growth'' \<and> leak_severity l = Critical)
               (leaks a)
           \<and> ma_retainedSize a = 6291456"
    if hs: "map heapUsed snaps = [10485760, 12582912, 14680064, 16777216]"
  proof -
    from hs obtain s1 s2 s3 s4 where snaps: "snaps = [s1, s2, s3, s4]"
      and h: "heapUsed s1 = 10485760" "heapUsed s2 = 12582912"
             "heapUsed s3 = 14680064" "heapUsed s4 = 16777216"
      by (auto simp: map_eq_Cons_conv)
    have gr: "growthRates snaps = [2097152, 2097152, 2097152]"
      by (simp add: growthRates_consecutive snaps h)
    have avg: "avgGrowth snaps = 2097152"
      by (simp add: avgGrowth_def gr)
    have cg: "consistent_growth_leaks snaps =
        [\<lparr> leak_type = ''consistent-growth'', leak_severity = Critical,
            leak_retainedSize = 8388608, leak_objects = [] \<rparr>]"
      by (simp add: consistent_growth_leaks_def avg) (simp add: snaps)
    have ne: "snaps \<noteq> []" by (simp add: snaps)
    have rs: "calculateRetainedSize snaps = 6291456"
      by (simp add: calculateRetainedSize_def snaps h)
    show ?thesis
      using ne rs
      by (simp add: analyzeSnapshots_def detectMemoryLeaks_nonempty [OF ne] cg
          generateMemoryRecommendations_def Let_def)
  qed
  from general example show ?thesis by blast
qed

text \<open>The four snapshots of the claim satisfy both hypotheses.\<close>

theorem consistent_growth_rule_witness:
  "3 \<le> length (map (\<lambda>h. snapshot_at 0 h 0) [10485760, 12582912, 14680064, 16777216])
   \<and> map heapUsed (map (\<lambda>h. snapshot_at 0 h 0) [10485760, 12582912, 14680064, 16777216])
       = [10485760, 12582912, 14680064, 16777216]
   \<and> (\<exists>ls. detectMemoryLeaks
              (map (\<lambda>h. snapshot_at 0 h 0) [10485760, 12582912, 14680064, 16777216]) = Inr ls
          \<and> has_leak ''consistent-growth'' ls)
   \<and> (\<exists>a. analyzeSnapshots
              (map (\<lambda>h. snapshot_at 0 h 0) [10485760, 12582912, 14680064, 16777216]) = Inr a
          \<and> ma_retainedSize a = 6291456)"
proof -
  let ?ex = "map (\<lambda>h. snapshot_at 0 h 0) [10485760, 12582912, 14680064, 16777216]"
  have h1: "3 \<le> length ?ex" by simp
  have h2: "map heapUsed ?ex = [10485760, 12582912, 14680064, 16777216]"
    by (simp add: snapshot_at_def)
  have mean: "of_int (sum_list (map2 (\<lambda>a b. heapUsed b - heapUsed a) ?ex (tl ?ex)))
               / of_nat (length ?ex - 1) > (1048576 :: rat)"
    by (simp add: snapshot_at_def)
  from consistent_growth_rule [of ?ex] h1 h2 mean show ?thesis by blast
qed

text \<open>
  Claim C7 as stated fails where the mean delta times the number of snapshots is not
  an integer: for \<open>heapUsed\<close> 1000000, 1000000, 3097153 the mean is 1048576.5, its
  product with 3 is 3145729.5, and the leak carries \<open>Math.floor\<close> of it, 3145729.
\<close>

theorem consistent_growth_retainedSize_counterexample:
  "3 \<le> length [snapshot_at 0 1000000 0, snapshot_at 3000 1000000 0, snapshot_at 6000 3097153 0]
   \<and> detectMemoryLeaks
        [snapshot_at 0 1000000 0, snapshot_at 3000 1000000 0, snapshot_at 6000 3097153 0]
     = Inr [\<lparr> leak_type = ''consistent-growth'', leak_severity = Critical,
               leak_retainedSize = 3145729, leak_objects = [] \<rparr>,
            \<lparr> leak_type = ''large-increase'', leak_severity = Warning,
               leak_retainedSize = 2097153, leak_objects = [] \<rparr>,
            the detectDetachedDOMNodes, the detectEventListenerLeaks]
   \<and> avgGrowth
        [snapshot_at 0 1000000 0, snapshot_at 3000 1000000 0, snapshot_at 6000 3097153 0]
     * of_nat (length
        [snapshot_at 0 1000000 0, snapshot_at 3000 1000000 0, snapshot_at 6000 3097153 0])
     = 6291459 / 2
   \<and> (of_int 3145729 :: rat) \<noteq> 6291459 / 2"
  by code_simp

subsection \<open>Totality of the aggregations\<close>

text \<open>
  On a sequence with at least one snapshot the memory pipeline returns an analysis.
\<close>

lemma analyzeSnapshots_nonempty:
  "snaps \<noteq> [] \<Longrightarrow> \<exists>a. analyzeSnapshots snaps = Inr a"
  by (simp add: analyzeSnapshots_def detectMemoryLeaks_nonempty
      generateMemoryRecommendations_def Let_def)

text \<open>
  Claim C3, as amended. Every aggregation function is total over its declared input
  shape, a snapshot sequence being non-empty as the memory analyzer always collects it
  (five snapshots): on every non-empty snapshot sequence \<open>detectMemoryLeaks\<close>,
  \<open>generateMemoryRecommendations\<close> and the analysis built from them return a result
  and do not fail; the bundle and re-render aggregations have no failing step at all
  (their models return plain values); a missing numeric field counts as 0; and empty
  input lists give empty or all-zero summaries: the empty event stream, build statistics
  with empty lists, and \<open>calculateRetainedSize\<close> of the empty sequence.
\<close>

theorem aggregations_total:
  "(snaps \<noteq> [] \<longrightarrow>
      (\<exists>ls recs a. detectMemoryLeaks snaps = Inr ls
         \<and> generateMemoryRecommendations snaps ls = Inr recs
         \<and> analyzeSnapshots snaps = Inr a
         \<and> leaks a = ls \<and> ma_recommendations a = recs
         \<and> heapSize a = heapUsed (last snaps)))
   \<and> calculateRetainedSize [] = 0
   \<and> analyzeRenderEvents ops [] =
       \<lparr> components = [], totalRerenders = 0, unnecessaryRerenders = 0,
         ra_recommendations = [] \<rparr>
   \<and> analyzeWebpackStats \<lparr> assets = [], chunks = [], modules = Some [] \<rparr> =
       \<lparr> totalSize = 0, ba_chunks = [], largeModules = [], duplicates = [],
         ba_recommendations = [],
         metrics = \<lparr> jsSize = 0, cssSize = 0, imageSize = 0, otherSize = 0 \<rparr> \<rparr>
   \<and> ci_size (chunkInfo (chunk \<lparr> chunk_size := None \<rparr>)) = 0
   \<and> ci_modules (chunkInfo (chunk \<lparr> chunk_modules := None \<rparr>)) = 0
   \<and> mi_size (moduleInfo (m \<lparr> mod_size := None \<rparr>)) = 0
   \<and> mi_depth (moduleInfo (m \<lparr> mod_depth := None \<rparr>)) = 0
   \<and> totalSize (analyzeWebpackStats
         \<lparr> assets = [\<lparr> asset_name = n, asset_size = None \<rparr>], chunks = [],
           modules = Some [] \<rparr>) = 0
   \<and> metrics (analyzeWebpackStats
         \<lparr> assets = [\<lparr> asset_name = n, asset_size = None \<rparr>], chunks = [],
           modules = Some [] \<rparr>)
       = \<lparr> jsSize = 0, cssSize = 0, imageSize = 0, otherSize = 0 \<rparr>"
proof -
  have mem: "\<exists>ls recs a. detectMemoryLeaks snaps = Inr ls
         \<and> generateMemoryRecommendations snaps ls = Inr recs
         \<and> analyzeSnapshots snaps = Inr a
         \<and> leaks a = ls \<and> ma_recommendations a = recs
         \<and> heapSize a = heapUsed (last snaps)"
    if ne: "snaps \<noteq> []"
    using ne
    by (simp add: analyzeSnapshots_def detectMemoryLeaks_nonempty [OF ne]
        generateMemoryRecommendations_def Let_def)
  have ret: "calculateRetainedSize [] = 0"
    by (simp add: calculateRetainedSize_def)
  have rer: "analyzeRenderEvents ops [] =
       \<lparr> components = [], totalRerenders = 0, unnecessaryRerenders = 0,
         ra_recommendations = [] \<rparr>"
    by (simp add: analyzeRenderEvents_def Let_def componentMap_of_def sort_cmp_def
        generateRerenderRecommendations_def slice0_def)
  have bun: "analyzeWebpackStats \<lparr> assets = [], chunks = [], modules = Some [] \<rparr> =
       \<lparr> totalSize = 0, ba_chunks = [], largeModules = [], duplicates = [],
         ba_recommendations = [],
         metrics = \<lparr> jsSize = 0, cssSize = 0, imageSize = 0, otherSize = 0 \<rparr> \<rparr>"
    by (rule analyzeWebpackStats_empty [OF refl]) simp
  have fields: "ci_size (chunkInfo (chunk \<lparr> chunk_size := None \<rparr>)) = 0"
    "ci_modules (chunkInfo (chunk \<lparr> chunk_modules := None \<rparr>)) = 0"
    "mi_size (moduleInfo (m \<lparr> mod_size := None \<rparr>)) = 0"
    "mi_depth (moduleInfo (m \<lparr> mod_depth := None \<rparr>)) = 0"
    by (simp_all add: chunkInfo_def moduleInfo_def num_or_def)
  have tot: "totalSize (analyzeWebpackStats
         \<lparr> assets = [\<lparr> asset_name = n, asset_size = None \<rparr>], chunks = [],
           modules = Some [] \<rparr>) = 0"
    by (simp add: analyzeWebpackStats_def Let_def num_or_def)
  have met: "metrics (analyzeWebpackStats
         \<lparr> assets = [\<lparr> asset_name = n, asset_size = None \<rparr>], chunks = [],
           modules = Some [] \<rparr>)
       = \<lparr> jsSize = 0, cssSize = 0, imageSize = 0, otherSize = 0 \<rparr>"
    by (simp add: analyzeWebpackStats_def Let_def calculateMetrics_def metrics_step_def
        num_or_def)
  from mem ret rer bun fields tot met show ?thesis by blast
qed

text \<open>The fixture of the test suite is a non-empty sequence, and is analyzed.\<close>

theorem aggregations_total_witness:
  "createMockMemorySnapshots 0 \<noteq> []
   \<and> (\<exists>ls recs a. detectMemoryLeaks (createMockMemorySnapshots 0) = Inr ls
         \<and> generateMemoryRecommendations (createMockMemorySnapshots 0) ls = Inr recs
         \<and> analyzeSnapshots (createMockMemorySnapshots 0) = Inr a
         \<and> heapSize a = 27262976)"
proof -
  have ne: "createMockMemorySnapshots 0 \<noteq> []"
    by (simp add: createMockMemorySnapshots_def)
  have lst: "heapUsed (last (createMockMemorySnapshots 0)) = 27262976"
    by (simp add: createMockMemorySnapshots_def snapshot_at_def)
  from aggregations_total [of "createMockMemorySnapshots 0"] ne lst show ?thesis
    by metis
qed

text \<open>
  Claim C3 as stated, with the empty snapshot sequence included, fails: on the empty
  sequence \<open>detectMemoryLeaks\<close> reads \<open>snapshots[0].heapUsed\<close> and
  \<open>generateMemoryRecommendations\<close> reads \<open>snapshots[snapshots.length - 1].heapUsed\<close>,
  and both fail.
\<close>

theorem empty_snapshots_counterexample:
  "detectMemoryLeaks [] = Inl TypeError
   \<and> generateMemoryRecommendations [] [] = Inl TypeError
   \<and> analyzeSnapshots [] = Inl TypeError"
  by (simp add: detectMemoryLeaks_def generateMemoryRecommendations_def analyzeSnapshots_def)

section \<open>Properties of the summary calculator\<close>

lemma fold_summary_step:
  "fold summary_step recs s =
     \<lparr> totalIssues = totalIssues s + length recs,
       criticalIssues = criticalIssues s + length (filter (\<lambda>r. severity r = Critical) recs),
       warnings = warnings s + length (filter (\<lambda>r. severity r = Warning) recs),
       suggestions = suggestions s @ map (\<lambda>r. category r @ '': '' @ title r) recs \<rparr>"
  by (induction recs arbitrary: s) (simp_all add: summary_step_def)

lemma allRecommendations_calculateSummary:
  "allRecommendations (calculateSummary results) = allRecommendations results"
  by (simp add: allRecommendations_def calculateSummary_def)

text \<open>
  Claim C10. Recomputing the summary gives \<open>totalIssues\<close> equal to the number of
  elements of the concatenation of the present recommendation lists (bundle, rerenders,
  memory, in that order), \<open>criticalIssues\<close> and \<open>warnings\<close> equal to the numbers of
  its critical and warning elements, and one suggestion per element, in that order;
  running the recomputation a second time gives the same result.
\<close>

theorem calculateSummary_counts_idempotent:
  "totalIssues (summary (calculateSummary results)) = length (allRecommendations results)
   \<and> criticalIssues (summary (calculateSummary results)) =
       length (filter (\<lambda>r. severity r = Critical) (allRecommendations results))
   \<and> warnings (summary (calculateSummary results)) =
       length (filter (\<lambda>r. severity r = Warning) (allRecommendations results))
   \<and> suggestions (summary (calculateSummary results)) =
       map (\<lambda>r. category r @ '': '' @ title r) (allRecommendations results)
   \<and> allRecommendations results =
       (case an_bundle (analyses results) of None \<Rightarrow> [] | Some b \<Rightarrow> ba_recommendations b) @
       (case an_rerenders (analyses results) of None \<Rightarrow> [] | Some r \<Rightarrow> ra_recommendations r) @
       (case an_memory (analyses results) of None \<Rightarrow> [] | Some m \<Rightarrow> ma_recommendations m)
   \<and> calculateSummary (calculateSummary results) = calculateSummary results"
proof -
  have idem: "calculateSummary (calculateSummary results) = calculateSummary results"
    using allRecommendations_calculateSummary [of results]
    by (simp add: calculateSummary_def allRecommendations_def)
  show ?thesis
    using idem by (simp add: calculateSummary_def fold_summary_step allRecommendations_def)
qed

end
